theory Spec2Isabelle
  imports Complex_Main "HOL-Library.Word"
begin

section \<open>Values shared by the CCTP modules\<close>

text \<open>
  Python exceptions that the modelled functions can raise.  A \<open>TimeoutError\<close> carries its
  message as the parts of the f-string that builds it: literal text and the interpolated
  values, in order.
\<close>

datatype fpart = Lit string | FloatArg real | StrArg string | IntArg int

datatype error =
    TimeoutError "fpart list"
  | HTTPError nat
  | ConnectionError
  | ValueError
  | AttributeError
  | AssertionError string
  | KeyError
  | IndexError
  | TypeError
  | TransactionFailed

text \<open>
  A field of a JSON object as \<open>dict.get\<close> sees it: the key is missing, the value is
  \<open>null\<close>, or the value is a string.
\<close>

datatype jval = JAbsent | JNull | JStr string

text \<open>One element of the \<open>messages\<close> array of the Iris V2 API (section 6 of the spec).\<close>

record iris_message =
  msg_status :: jval
  msg_attestation :: jval
  msg_message :: jval
  msg_eventNonce :: jval
  msg_delayReason :: jval
  msg_destinationDomain :: "int option"
  msg_cctpVersion :: "int option"

text \<open>
  What \<open>requests.get\<close> gives back: it raises a transport error, or it returns a response
  with a status code and a JSON body, of which only \<open>data.get("messages", [])\<close> is read.
\<close>

datatype http_reply = ConnectionFailed | Response nat "iris_message list"

text \<open>One request as the caller experiences it: how long it blocked, and the reply.\<close>

record exchange =
  took :: real
  reply :: http_reply

text \<open>
  The attestation service as one polling loop sees it: the answer to the \<open>k\<close>-th request
  (counted from 1) for a URL.
\<close>

type_synonym service = "string \<Rightarrow> nat \<Rightarrow> exchange"

definition HTTP_NOT_FOUND :: nat where
  "HTTP_NOT_FOUND = 404"

text \<open>\<open>response.raise_for_status()\<close> raises for 4xx and 5xx codes.\<close>

definition raise_for_status :: "nat \<Rightarrow> error + unit" where
  "raise_for_status code = (if 400 \<le> code \<and> code < 600 then Inl (HTTPError code) else Inr ())"

subsection \<open>Strings\<close>

text \<open>\<open>if not h.startswith("0x"): h = f"0x{h}"\<close>\<close>

fun startswith_0x :: "string \<Rightarrow> bool" where
  "startswith_0x (a # b # cs) = (a = CHR ''0'' \<and> b = CHR ''x'')"
| "startswith_0x cs = False"

definition with_0x_prefix :: "string \<Rightarrow> string" where
  "with_0x_prefix h = (if \<not> startswith_0x h then ''0x'' @ h else h)"

text \<open>\<open>s.replace("0x", "")\<close>: every occurrence, scanning from the left.\<close>

fun replace_0x :: "string \<Rightarrow> string" where
  "replace_0x (a # b # cs) =
     (if a = CHR ''0'' \<and> b = CHR ''x'' then replace_0x cs else a # replace_0x (b # cs))"
| "replace_0x cs = cs"

definition hexval :: "char \<Rightarrow> nat option" where
  "hexval c =
     (let n = (of_char c :: nat) in
      if 48 \<le> n \<and> n \<le> 57 then Some (n - 48)
      else if 97 \<le> n \<and> n \<le> 102 then Some (n - 87)
      else if 65 \<le> n \<and> n \<le> 70 then Some (n - 55)
      else None)"

definition is_space :: "char \<Rightarrow> bool" where
  "is_space c = ((of_char c :: nat) \<in> {32, 9, 10, 11, 12, 13})"

text \<open>
  \<open>bytes.fromhex\<close>: two hexadecimal digits per byte, ASCII whitespace skipped between
  bytes; anything else raises \<open>ValueError\<close> (here \<open>None\<close>).
\<close>

fun fromhex :: "string \<Rightarrow> 8 word list option" where
  "fromhex [] = Some []"
| "fromhex [c] = (if is_space c then Some [] else None)"
| "fromhex (c # d # ds) =
     (if is_space c then fromhex (d # ds)
      else (case (hexval c, hexval d) of
              (Some h, Some l) \<Rightarrow>
                (case fromhex ds of None \<Rightarrow> None
                 | Some bs \<Rightarrow> Some (word_of_nat (16 * h + l) # bs))
            | _ \<Rightarrow> None))"

text \<open>\<open>str(n)\<close> for an integer, as an f-string interpolates it.\<close>

fun str_nat :: "nat \<Rightarrow> string" where
  "str_nat n =
     (if n < 10 then [''0123456789'' ! n]
      else str_nat (n div 10) @ [''0123456789'' ! (n mod 10)])"

declare str_nat.simps [simp del]

definition str_int :: "int \<Rightarrow> string" where
  "str_int i = (if i < 0 then CHR ''-'' # str_nat (nat (- i)) else str_nat (nat i))"

section \<open>attestation.py\<close>

record CCTPAttestation =
  message :: "8 word list"
  attestation :: "8 word list"
  status :: string

text \<open>
  The state one call of \<open>fetch_attestation\<close> works on: the wall clock (\<open>time.time()\<close>),
  the local variables \<open>attempt\<close> and \<open>last_phase\<close>, and what the call has done to the
  outside: the \<open>on_phase_change(status, attempt)\<close> calls made so far, oldest first, and the
  number of HTTP requests issued.
\<close>

record poll_state =
  now :: real
  attempt :: nat
  last_phase :: "string option"
  calls :: "(string option \<times> nat) list"
  requests :: nat

text \<open>
  The closure \<open>_notify\<close>; \<open>cb\<close> says whether \<open>on_phase_change\<close> was given.  The phase is
  \<open>None\<close> when the service sent \<open>"status": null\<close>.
\<close>

definition notify :: "bool \<Rightarrow> string option \<Rightarrow> poll_state \<Rightarrow> poll_state" where
  "notify cb phase s =
     (let s1 = s\<lparr>last_phase := phase\<rparr>
      in if cb then s1\<lparr>calls := calls s1 @ [(phase, attempt s1)]\<rparr> else s1)"

text \<open>\<open>time.sleep(d)\<close> raises \<open>ValueError\<close> for a negative length.\<close>

definition sleep :: "real \<Rightarrow> poll_state \<Rightarrow> error + poll_state" where
  "sleep d s = (if d < 0 then Inl ValueError else Inr (s\<lparr>now := now s + d\<rparr>))"

text \<open>\<open>requests.get(url, timeout=30)\<close>: one more request, and the clock moves on.\<close>

definition http_get :: "service \<Rightarrow> string \<Rightarrow> poll_state \<Rightarrow> http_reply \<times> poll_state" where
  "http_get svc url s =
     (let x = svc url (requests s + 1)
      in (reply x, s\<lparr>now := now s + took x, requests := requests s + 1\<rparr>))"

text \<open>\<open>msg.get("status", "")\<close>\<close>

definition get_status :: "iris_message \<Rightarrow> string option" where
  "get_status msg =
     (case msg_status msg of JAbsent \<Rightarrow> Some [] | JNull \<Rightarrow> None | JStr s \<Rightarrow> Some s)"

text \<open>\<open>status == "complete" and attestation_hex and attestation_hex != "PENDING"\<close>\<close>

definition attestation_ready :: "iris_message \<Rightarrow> bool" where
  "attestation_ready msg =
     (get_status msg = Some ''complete'' \<and>
      (case msg_attestation msg of JStr a \<Rightarrow> a \<noteq> [] \<and> a \<noteq> ''PENDING'' | _ \<Rightarrow> False))"

text \<open>
  The \<open>return CCTPAttestation(...)\<close> of the complete branch: \<open>msg.get("message", "")\<close>,
  then both payloads through \<open>bytes.fromhex(x.replace("0x", ""))\<close>.
\<close>

definition decode_attestation :: "iris_message \<Rightarrow> error + CCTPAttestation" where
  "decode_attestation msg =
     (case (case msg_message msg of JAbsent \<Rightarrow> Some [] | JNull \<Rightarrow> None | JStr m \<Rightarrow> Some m) of
        None \<Rightarrow> Inl AttributeError
      | Some message_hex \<Rightarrow>
          (case fromhex (replace_0x message_hex) of
             None \<Rightarrow> Inl ValueError
           | Some mb \<Rightarrow>
               (case msg_attestation msg of
                  JStr attestation_hex \<Rightarrow>
                    (case fromhex (replace_0x attestation_hex) of
                       None \<Rightarrow> Inl ValueError
                     | Some ab \<Rightarrow>
                         Inr \<lparr>message = mb, attestation = ab, status = ''complete''\<rparr>)
                | _ \<Rightarrow> Inl AttributeError)))"

type_synonym 'a outcome = "(error + 'a) \<times> poll_state"

text \<open>
  One pass through the body of the \<open>while True\<close> loop of \<open>fetch_attestation\<close>: it leaves
  the loop by \<open>return\<close> or \<open>raise\<close> (\<open>Inl\<close>, with the result and the state), or it ends in
  \<open>time.sleep(poll_interval)\<close> and the loop goes round again (\<open>Inr\<close>, with the state).
\<close>

definition fetch_pass ::
  "service \<Rightarrow> string \<Rightarrow> string \<Rightarrow> string \<Rightarrow> real \<Rightarrow> real \<Rightarrow> bool \<Rightarrow> real \<Rightarrow> poll_state
   \<Rightarrow> CCTPAttestation outcome + poll_state" where
  "fetch_pass svc url transaction_hash domain_name timeout poll_interval cb start_time s =
     (let elapsed = now s - start_time in
      if elapsed \<ge> timeout then
        Inl (Inl (TimeoutError [Lit ''CCTP attestation not ready after '', FloatArg timeout,
               Lit ''s for tx '', StrArg transaction_hash, Lit '' on '', StrArg domain_name]), s)
      else
        (case http_get svc url (s\<lparr>attempt := attempt s + 1\<rparr>) of
           (ConnectionFailed, s1) \<Rightarrow> Inl (Inl ConnectionError, s1)
         | (Response code messages, s1) \<Rightarrow>
             if code = HTTP_NOT_FOUND then
               (case sleep poll_interval (notify cb (Some ''waiting_for_indexing'') s1) of
                  Inl e \<Rightarrow> Inl (Inl e, notify cb (Some ''waiting_for_indexing'') s1)
                | Inr s2 \<Rightarrow> Inr s2)
             else
               (case raise_for_status code of
                  Inl e \<Rightarrow> Inl (Inl e, s1)
                | Inr _ \<Rightarrow>
                    (case messages of
                       [] \<Rightarrow>
                         (case sleep poll_interval s1 of
                            Inl e \<Rightarrow> Inl (Inl e, s1)
                          | Inr s2 \<Rightarrow> Inr s2)
                     | msg # _ \<Rightarrow>
                         if attestation_ready msg then
                           Inl (decode_attestation msg, notify cb (Some ''complete'') s1)
                         else
                           (case sleep poll_interval (notify cb (get_status msg) s1) of
                              Inl e \<Rightarrow> Inl (Inl e, notify cb (get_status msg) s1)
                            | Inr s2 \<Rightarrow> Inr s2)))))"

text \<open>
  The loop itself.  It need not return (a zero poll interval against a service that answers
  at once never moves the clock), so not returning is the value \<open>None\<close>.
\<close>

partial_function (option) fetch_loop ::
  "service \<Rightarrow> string \<Rightarrow> string \<Rightarrow> string \<Rightarrow> real \<Rightarrow> real \<Rightarrow> bool \<Rightarrow> real \<Rightarrow> poll_state
   \<Rightarrow> CCTPAttestation outcome option" where
  "fetch_loop svc url transaction_hash domain_name timeout poll_interval cb start_time s =
     (case fetch_pass svc url transaction_hash domain_name timeout poll_interval cb start_time s of
        Inl out \<Rightarrow> Some out
      | Inr s2 \<Rightarrow>
          fetch_loop svc url transaction_hash domain_name timeout poll_interval cb start_time s2)"

text \<open>
  Replies by what a pass of the loop does with them.  \<open>still_waiting\<close>: the pass sleeps and
  the loop goes on, for a 404 and for a response that passes \<open>raise_for_status\<close> and has
  no message or a first message that is not ready.  \<open>reported\<close>: the phase that the pass
  hands to \<open>_notify\<close>, if it calls it at all.
\<close>

definition still_waiting :: "http_reply \<Rightarrow> bool" where
  "still_waiting r =
     (case r of
        ConnectionFailed \<Rightarrow> False
      | Response code messages \<Rightarrow>
          code = HTTP_NOT_FOUND \<or>
          (raise_for_status code = Inr () \<and>
           (case messages of [] \<Rightarrow> True | msg # _ \<Rightarrow> \<not> attestation_ready msg)))"

definition reported :: "http_reply \<Rightarrow> string option option" where
  "reported r =
     (case r of
        ConnectionFailed \<Rightarrow> None
      | Response code messages \<Rightarrow>
          if code = HTTP_NOT_FOUND then Some (Some ''waiting_for_indexing'')
          else if raise_for_status code \<noteq> Inr () then None
          else (case messages of
                  [] \<Rightarrow> None
                | msg # _ \<Rightarrow>
                    Some (if attestation_ready msg then Some ''complete'' else get_status msg)))"

text \<open>The calls of \<open>on_phase_change\<close> made by poll number \<open>k\<close> on reply \<open>r\<close>.\<close>

definition report :: "bool \<Rightarrow> http_reply \<Rightarrow> nat \<Rightarrow> (string option \<times> nat) list" where
  "report cb r k = (if cb then (case reported r of None \<Rightarrow> [] | Some ph \<Rightarrow> [(ph, k)]) else [])"

text \<open>
  \<open>fetch_attestation\<close>.  \<open>names\<close> is the table \<open>CCTP_DOMAIN_NAMES\<close> of the constants
  module, and \<open>t0\<close> the wall clock when the call is made.
\<close>

definition messages_url :: "string \<Rightarrow> int \<Rightarrow> string \<Rightarrow> string" where
  "messages_url api_base_url source_domain transaction_hash =
     api_base_url @ ''/v2/messages/'' @ str_int source_domain @ ''?transactionHash=''
       @ transaction_hash"

definition domain_name_of :: "(int \<rightharpoonup> string) \<Rightarrow> int \<Rightarrow> string" where
  "domain_name_of names source_domain =
     (case names source_domain of Some n \<Rightarrow> n | None \<Rightarrow> ''domain-'' @ str_int source_domain)"

definition fetch_attestation ::
  "(int \<rightharpoonup> string) \<Rightarrow> service \<Rightarrow> real \<Rightarrow> int \<Rightarrow> string \<Rightarrow> real \<Rightarrow> real \<Rightarrow> string \<Rightarrow> bool
   \<Rightarrow> CCTPAttestation outcome option" where
  "fetch_attestation names svc t0 source_domain transaction_hash timeout poll_interval
     api_base_url cb =
     (let transaction_hash = with_0x_prefix transaction_hash;
          domain_name = domain_name_of names source_domain;
          url = messages_url api_base_url source_domain transaction_hash;
          s0 = \<lparr>now = t0, attempt = 0, last_phase = None, calls = [], requests = 0\<rparr>
      in fetch_loop svc url transaction_hash domain_name timeout poll_interval cb t0
           (notify cb (Some ''waiting_for_indexing'') s0))"

text \<open>
  \<open>is_attestation_complete\<close>: one request inside \<open>try ... except requests.RequestException\<close>.
  Both the transport errors of \<open>requests.get\<close> and the \<open>HTTPError\<close> of
  \<open>raise_for_status\<close> are \<open>RequestException\<close>s.  The second component counts the
  \<open>logger.warning\<close> calls made.
\<close>

definition is_request_exception :: "error \<Rightarrow> bool" where
  "is_request_exception e = (case e of HTTPError _ \<Rightarrow> True | ConnectionError \<Rightarrow> True | _ \<Rightarrow> False)"

text \<open>\<open>msg.get("status") == "complete" and msg.get("attestation") not in {None, "PENDING"}\<close>\<close>

definition first_message_complete :: "iris_message \<Rightarrow> bool" where
  "first_message_complete msg =
     (msg_status msg = JStr ''complete'' \<and>
      (case msg_attestation msg of JStr a \<Rightarrow> a \<noteq> ''PENDING'' | _ \<Rightarrow> False))"

definition is_attestation_complete_try :: "service \<Rightarrow> string \<Rightarrow> error + bool option" where
  "is_attestation_complete_try svc url =
     (case reply (svc url 1) of
        ConnectionFailed \<Rightarrow> Inl ConnectionError
      | Response code messages \<Rightarrow>
          (case raise_for_status code of
             Inl e \<Rightarrow> Inl e
           | Inr _ \<Rightarrow>
               (case messages of
                  [] \<Rightarrow> Inr None
                | msg # _ \<Rightarrow> Inr (Some (first_message_complete msg)))))"

definition is_attestation_complete ::
  "service \<Rightarrow> int \<Rightarrow> string \<Rightarrow> string \<Rightarrow> (error + bool) \<times> nat" where
  "is_attestation_complete svc source_domain transaction_hash api_base_url =
     (let transaction_hash = with_0x_prefix transaction_hash;
          url = messages_url api_base_url source_domain transaction_hash
      in case is_attestation_complete_try svc url of
           Inr (Some b) \<Rightarrow> (Inr b, 0)
         | Inr None \<Rightarrow> (Inr False, 0)
         | Inl e \<Rightarrow> if is_request_exception e then (Inr False, 1) else (Inl e, 0))"

section \<open>monitor.py\<close>

record CCTPTransferStatus =
  ts_status :: "string option"
  ts_source_domain :: int
  ts_dest_domain :: int
  ts_attestation :: "8 word list option"
  ts_message :: "8 word list option"
  ts_nonce :: "string option"
  ts_delay_reason :: "string option"
  ts_transaction_hash :: string
  ts_cctp_version :: "int option"

definition is_complete :: "CCTPTransferStatus \<Rightarrow> bool" where
  "is_complete st = (ts_status st = Some ''complete'' \<and> ts_attestation st \<noteq> None)"

definition is_pending :: "CCTPTransferStatus \<Rightarrow> bool" where
  "is_pending st = (ts_status st = Some ''pending_confirmations'')"

definition is_delayed :: "CCTPTransferStatus \<Rightarrow> bool" where
  "is_delayed st = (ts_delay_reason st \<noteq> None)"

record CCTPTransferQuery =
  q_source_domain :: int
  q_transaction_hash :: string

text \<open>\<open>msg.get(key)\<close> for a string-valued key: \<open>None\<close> when missing or null.\<close>

definition get_str :: "jval \<Rightarrow> string option" where
  "get_str v = (case v of JStr s \<Rightarrow> Some s | _ \<Rightarrow> None)"

text \<open>
  \<open>_parse_transfer_status\<close>.  \<open>msg_destinationDomain\<close> is what
  \<open>int(decoded.get("destinationDomain", 0))\<close> yields, \<open>None\<close> when there is no decoded
  message or the conversion fails (the \<open>except\<close> keeps 0).
\<close>

definition parse_transfer_status ::
  "iris_message \<Rightarrow> int \<Rightarrow> string \<Rightarrow> error + CCTPTransferStatus" where
  "parse_transfer_status msg source_domain transaction_hash =
     (case (case msg_attestation msg of
              JStr a \<Rightarrow>
                if a \<noteq> [] \<and> a \<noteq> ''PENDING''
                then (case fromhex (replace_0x a) of None \<Rightarrow> Inl ValueError | Some b \<Rightarrow> Inr (Some b))
                else Inr None
            | _ \<Rightarrow> Inr None) of
        Inl e \<Rightarrow> Inl e
      | Inr attestation_bytes \<Rightarrow>
          (case (case msg_message msg of
                   JStr m \<Rightarrow>
                     if m \<noteq> [] \<and> m \<noteq> ''0x''
                     then (case fromhex (replace_0x m) of None \<Rightarrow> Inl ValueError | Some b \<Rightarrow> Inr (Some b))
                     else Inr None
                 | _ \<Rightarrow> Inr None) of
             Inl e \<Rightarrow> Inl e
           | Inr message_bytes \<Rightarrow>
               Inr \<lparr>ts_status = get_status msg,
                    ts_source_domain = source_domain,
                    ts_dest_domain = (case msg_destinationDomain msg of None \<Rightarrow> 0 | Some d \<Rightarrow> d),
                    ts_attestation = attestation_bytes,
                    ts_message = message_bytes,
                    ts_nonce = get_str (msg_eventNonce msg),
                    ts_delay_reason = get_str (msg_delayReason msg),
                    ts_transaction_hash = transaction_hash,
                    ts_cctp_version = msg_cctpVersion msg\<rparr>))"

definition fetch_transfer_status ::
  "service \<Rightarrow> int \<Rightarrow> string \<Rightarrow> string \<Rightarrow> poll_state
   \<Rightarrow> (error + CCTPTransferStatus option) \<times> poll_state" where
  "fetch_transfer_status svc source_domain transaction_hash api_base_url s =
     (let transaction_hash = with_0x_prefix transaction_hash;
          url = messages_url api_base_url source_domain transaction_hash
      in case http_get svc url s of
           (ConnectionFailed, s1) \<Rightarrow> (Inl ConnectionError, s1)
         | (Response code messages, s1) \<Rightarrow>
             if code = HTTP_NOT_FOUND then (Inr None, s1)
             else
               (case raise_for_status code of
                  Inl e \<Rightarrow> (Inl e, s1)
                | Inr _ \<Rightarrow>
                    (case messages of
                       [] \<Rightarrow> (Inr None, s1)
                     | msg # _ \<Rightarrow>
                         (case parse_transfer_status msg source_domain transaction_hash of
                            Inl e \<Rightarrow> (Inl e, s1)
                          | Inr st \<Rightarrow> (Inr (Some st), s1)))))"

text \<open>
  One pass through the body of the \<open>while True\<close> loop of \<open>poll_transfer_status\<close>, and the
  loop.
\<close>

definition poll_pass ::
  "service \<Rightarrow> int \<Rightarrow> string \<Rightarrow> real \<Rightarrow> real \<Rightarrow> string \<Rightarrow> real \<Rightarrow> poll_state
   \<Rightarrow> CCTPTransferStatus outcome + poll_state" where
  "poll_pass svc source_domain transaction_hash timeout poll_interval api_base_url start_time s =
     (let elapsed = now s - start_time in
      if elapsed \<ge> timeout then
        Inl (Inl (TimeoutError [Lit ''CCTP transfer not complete after '', FloatArg timeout,
               Lit ''s for tx '', StrArg transaction_hash, Lit '' on domain '',
               IntArg source_domain]), s)
      else
        (case fetch_transfer_status svc source_domain transaction_hash api_base_url
                (s\<lparr>attempt := attempt s + 1\<rparr>) of
           (Inl e, s1) \<Rightarrow> Inl (Inl e, s1)
         | (Inr None, s1) \<Rightarrow>
             (case sleep poll_interval s1 of
                Inl e \<Rightarrow> Inl (Inl e, s1)
              | Inr s2 \<Rightarrow> Inr s2)
         | (Inr (Some st), s1) \<Rightarrow>
             if is_complete st then Inl (Inr st, s1)
             else
               (case sleep poll_interval s1 of
                  Inl e \<Rightarrow> Inl (Inl e, s1)
                | Inr s2 \<Rightarrow> Inr s2)))"

partial_function (option) poll_loop ::
  "service \<Rightarrow> int \<Rightarrow> string \<Rightarrow> real \<Rightarrow> real \<Rightarrow> string \<Rightarrow> real \<Rightarrow> poll_state
   \<Rightarrow> CCTPTransferStatus outcome option" where
  "poll_loop svc source_domain transaction_hash timeout poll_interval api_base_url start_time s =
     (case poll_pass svc source_domain transaction_hash timeout poll_interval api_base_url
             start_time s of
        Inl out \<Rightarrow> Some out
      | Inr s2 \<Rightarrow>
          poll_loop svc source_domain transaction_hash timeout poll_interval api_base_url
            start_time s2)"

definition poll_transfer_status ::
  "service \<Rightarrow> real \<Rightarrow> int \<Rightarrow> string \<Rightarrow> real \<Rightarrow> real \<Rightarrow> string
   \<Rightarrow> CCTPTransferStatus outcome option" where
  "poll_transfer_status svc t0 source_domain transaction_hash timeout poll_interval api_base_url =
     poll_loop svc source_domain (with_0x_prefix transaction_hash) timeout poll_interval
       api_base_url t0
       \<lparr>now = t0, attempt = 0, last_phase = None, calls = [], requests = 0\<rparr>"

subsection \<open>Thread pools\<close>

text \<open>
  What the caller of a \<open>ThreadPoolExecutor\<close> observes.  Every submitted task runs to its
  end, since leaving the \<open>with\<close> block waits for all of them; \<open>as_completed\<close> hands the
  futures over in the order they finished, \<open>order\<close>, a list of task indices, and
  \<open>future.result()\<close> re-raises the task's exception.
\<close>

text \<open>\<open>ThreadPoolExecutor(max_workers=m)\<close> raises \<open>ValueError\<close> unless \<open>m > 0\<close>.\<close>

definition executor_ok :: "int option \<Rightarrow> nat \<Rightarrow> bool" where
  "executor_ok max_workers n = (0 < (case max_workers of None \<Rightarrow> int n | Some m \<Rightarrow> m))"

text \<open>\<open>for future in as_completed(futures): results[futures[future]] = future.result()\<close>\<close>

fun collect_results :: "nat list \<Rightarrow> (error + 'a) list \<Rightarrow> (nat \<rightharpoonup> 'a) \<Rightarrow> error + (nat \<rightharpoonup> 'a)" where
  "collect_results [] outs results = Inr results"
| "collect_results (idx # rest) outs results =
     (if idx < length outs then
        (case outs ! idx of
           Inl e \<Rightarrow> Inl e
         | Inr v \<Rightarrow> collect_results rest outs (results(idx \<mapsto> v)))
      else collect_results rest outs results)"

text \<open>\<open>[results[i] for i in range(n)]\<close>: a missing key raises \<open>KeyError\<close>.\<close>

fun in_input_order :: "(nat \<rightharpoonup> 'a) \<Rightarrow> nat list \<Rightarrow> error + 'a list" where
  "in_input_order results [] = Inr []"
| "in_input_order results (i # rest) =
     (case results i of
        None \<Rightarrow> Inl KeyError
      | Some v \<Rightarrow>
          (case in_input_order results rest of Inl e \<Rightarrow> Inl e | Inr vs \<Rightarrow> Inr (v # vs)))"

text \<open>
  \<open>poll_transfers_parallel\<close>.  Task \<open>i\<close> polls for \<open>transfers[i]\<close>; it sees the service as
  \<open>svcs i\<close> and starts at wall-clock time \<open>started i\<close>.  The call returns only when every
  task has returned; it gives the caller's result and the final state of every task.
\<close>

definition poll_transfers_parallel ::
  "(nat \<Rightarrow> service) \<Rightarrow> (nat \<Rightarrow> real) \<Rightarrow> nat list \<Rightarrow> CCTPTransferQuery list \<Rightarrow> real \<Rightarrow> real
   \<Rightarrow> string \<Rightarrow> int option \<Rightarrow> ((error + CCTPTransferStatus list) \<times> poll_state list) option" where
  "poll_transfers_parallel svcs started order transfers timeout poll_interval api_base_url
     max_workers =
     (if transfers = [] then Some (Inr [], [])
      else if \<not> executor_ok max_workers (length transfers) then Some (Inl ValueError, [])
      else
        (case those (map (\<lambda>idx. poll_transfer_status (svcs idx) (started idx)
                             (q_source_domain (transfers ! idx))
                             (q_transaction_hash (transfers ! idx))
                             timeout poll_interval api_base_url)
                       [0..<length transfers]) of
           None \<Rightarrow> None
         | Some done \<Rightarrow>
             (case collect_results order (map fst done) Map.empty of
                Inl e \<Rightarrow> Some (Inl e, map snd done)
              | Inr results \<Rightarrow>
                  Some (in_input_order results [0..<length transfers], map snd done))))"

section \<open>bridge.py\<close>

datatype CCTPBridgePhase =
  burning | waiting_for_indexing | pending_confirmations | attested | receiving | complete

text \<open>\<open>phase.value\<close> and \<open>list(CCTPBridgePhase).index(phase)\<close>.\<close>

fun phase_value :: "CCTPBridgePhase \<Rightarrow> string" where
  "phase_value burning = ''burning''"
| "phase_value waiting_for_indexing = ''waiting_for_indexing''"
| "phase_value pending_confirmations = ''pending_confirmations''"
| "phase_value attested = ''attested''"
| "phase_value receiving = ''receiving''"
| "phase_value complete = ''complete''"

fun phase_index :: "CCTPBridgePhase \<Rightarrow> nat" where
  "phase_index burning = 0"
| "phase_index waiting_for_indexing = 1"
| "phase_index pending_confirmations = 2"
| "phase_index attested = 3"
| "phase_index receiving = 4"
| "phase_index complete = 5"

record CCTPBridgeResult =
  burn_tx_hash :: string
  receive_tx_hash :: string
  r_amount :: int
  source_chain_id :: int
  dest_chain_id :: int

record CCTPBurnResult =
  b_burn_tx_hash :: string
  b_amount :: int
  b_source_chain_id :: int
  b_dest_chain_id :: int
  b_dest_safe_address :: string

text \<open>A destination; the connection \<open>dest_web3\<close> is known by its \<open>eth.chain_id\<close>.\<close>

record CCTPBridgeDestination =
  dest_web3 :: int
  dest_safe_address :: string
  amount :: int

subsection \<open>The progress tracker\<close>

text \<open>
  The variables that the closure \<open>_update_phase\<close> works on under its lock:
  \<open>transfer_phases\<close>, \<open>poll_counts\<close>, and the progress bar, of which \<open>bar_n\<close> is the sum
  of the arguments of all \<open>progress_bar.update\<close> calls.
\<close>

record progress =
  transfer_phases :: "CCTPBridgePhase list"
  poll_counts :: "nat list"
  bar_n :: nat
  bar_description :: string
  bar_postfix :: string

text \<open>\<open>", ".join(parts)\<close>\<close>

fun join :: "string \<Rightarrow> string list \<Rightarrow> string" where
  "join sep [] = []"
| "join sep [x] = x"
| "join sep (x # y # ys) = x @ sep @ join sep (y # ys)"

definition polls_postfix :: "nat list \<Rightarrow> string" where
  "polls_postfix counts = ''polls: '' @ str_nat (sum_list counts)"

definition phases_description :: "string list \<Rightarrow> CCTPBridgePhase list \<Rightarrow> string" where
  "phases_description dest_names phases =
     ''CCTP ['' @ join '', '' (map (\<lambda>i. dest_names ! i @ '':'' @ phase_value (phases ! i))
                                 [0..<length phases]) @ '']''"

text \<open>
  \<open>_update_phase(idx, phase, attempt)\<close>.  Indexing either list out of range raises
  \<open>IndexError\<close>.
\<close>

definition update_phase ::
  "string list \<Rightarrow> nat \<Rightarrow> CCTPBridgePhase \<Rightarrow> nat \<Rightarrow> progress \<Rightarrow> error + progress" where
  "update_phase dest_names idx phase n_attempt p =
     (if n_attempt > 0 \<and> \<not> idx < length (poll_counts p) then Inl IndexError
      else
        let p1 = (if n_attempt > 0 then p\<lparr>poll_counts := (poll_counts p)[idx := n_attempt]\<rparr> else p)
        in if \<not> idx < length (transfer_phases p1) then Inl IndexError
           else
             let old_phase = transfer_phases p1 ! idx
             in if phase_value phase = phase_value old_phase then
                  Inr (p1\<lparr>bar_postfix := polls_postfix (poll_counts p1)\<rparr>)
                else
                  let p2 = p1\<lparr>transfer_phases := (transfer_phases p1)[idx := phase]\<rparr>;
                      old_ord = phase_index old_phase;
                      new_ord = phase_index phase;
                      advance = max 0 (int new_ord - int old_ord);
                      p3 = (if advance > 0 then p2\<lparr>bar_n := bar_n p2 + nat advance\<rparr> else p2)
                  in Inr (p3\<lparr>bar_description :=
                                 phases_description dest_names (transfer_phases p3),
                              bar_postfix := polls_postfix (poll_counts p3)\<rparr>))"

text \<open>A sequence of updates, each \<open>(idx, phase, n_attempt)\<close>, fed to the tracker in order.\<close>

fun feed :: "string list \<Rightarrow> (nat \<times> CCTPBridgePhase \<times> nat) list \<Rightarrow> progress \<Rightarrow> error + progress" where
  "feed dest_names [] p = Inr p"
| "feed dest_names ((idx, phase, n_attempt) # us) p =
     (case update_phase dest_names idx phase n_attempt p of
        Inl e \<Rightarrow> Inl e
      | Inr p' \<Rightarrow> feed dest_names us p')"

subsection \<open>The chains and the collaborators\<close>

text \<open>
  A contract call as it is handed to a chain: the approval of \<open>prepare_approve_for_burn\<close>
  (chain, amount), the burn of \<open>prepare_deposit_for_burn\<close> (source chain, amount,
  destination chain id, mint recipient) and the receive of \<open>prepare_receive_message\<close>
  (destination chain, message, attestation).
\<close>

datatype tx =
    Approve int int
  | DepositForBurn int int int string
  | ReceiveMessage int "8 word list" "8 word list"

text \<open>
  What the bridge uses and this module does not define: \<open>_resolve_cctp_domain\<close>; whether
  preparing a call raises (\<open>prepare\<close>); what a chain does with a submitted call, given the
  calls submitted before it: the transaction hash, and whether
  \<open>assert_transaction_success_with_explanation\<close> accepts it (\<open>execute\<close>);
  \<open>get_chain_name\<close>; the forging helpers of the testing module; and the constants.
  Signing (\<open>hot_wallet\<close>) changes no result here and is left out.
\<close>

record env =
  resolve_cctp_domain :: "int \<Rightarrow> int option"
  prepare :: "tx \<Rightarrow> error option"
  execute :: "tx list \<Rightarrow> tx \<Rightarrow> string \<times> bool"
  get_chain_name :: "int \<Rightarrow> string"
  craft_cctp_message :: "int \<Rightarrow> int \<Rightarrow> int \<Rightarrow> string \<Rightarrow> int \<Rightarrow> string \<Rightarrow> 8 word list"
  forge_attestation :: "8 word list \<Rightarrow> string \<Rightarrow> 8 word list"
  USDC_NATIVE_TOKEN :: "int \<rightharpoonup> string"
  TESTNET_CHAIN_IDS :: "int list"
  IRIS_API_BASE_URL :: string
  IRIS_API_SANDBOX_URL :: string
  CCTP_DOMAIN_NAMES :: "int \<rightharpoonup> string"

text \<open>
  What a bridge call changes: the calls submitted to the chains, oldest first; the progress
  tracker; the number of HTTP requests sent to the attestation service.
\<close>

record world =
  txs :: "tx list"
  bar :: progress
  http_requests :: nat

text \<open>
  \<open>_send_contract_tx\<close> followed by \<open>assert_transaction_success_with_explanation\<close>, as every
  caller pairs them.
\<close>

definition send_contract_tx :: "env \<Rightarrow> tx \<Rightarrow> world \<Rightarrow> (error + string) \<times> world" where
  "send_contract_tx e t w =
     (case prepare e t of
        Some err \<Rightarrow> (Inl err, w)
      | None \<Rightarrow>
          (let (tx_hash, ok) = execute e (txs w) t;
               w1 = w\<lparr>txs := txs w @ [t]\<rparr>
           in if ok then (Inr tx_hash, w1) else (Inl TransactionFailed, w1)))"

definition track ::
  "string list \<Rightarrow> nat \<Rightarrow> CCTPBridgePhase \<Rightarrow> nat \<Rightarrow> world \<Rightarrow> error + world" where
  "track dest_names idx phase n_attempt w =
     (case update_phase dest_names idx phase n_attempt (bar w) of
        Inl err \<Rightarrow> Inl err
      | Inr p \<Rightarrow> Inr (w\<lparr>bar := p\<rparr>))"

definition burn_usdc_cctp ::
  "env \<Rightarrow> int \<Rightarrow> int \<Rightarrow> string \<Rightarrow> int \<Rightarrow> world \<Rightarrow> (error + CCTPBurnResult) \<times> world" where
  "burn_usdc_cctp e source_web3 dest_chain dest_safe amt w =
     (if resolve_cctp_domain e source_web3 = None then
        (Inl (AssertionError (''Source chain '' @ str_int source_web3 @ '' is not CCTP-enabled'')), w)
      else if resolve_cctp_domain e dest_chain = None then
        (Inl (AssertionError (''Destination chain '' @ str_int dest_chain @ '' is not CCTP-enabled'')), w)
      else
        (case send_contract_tx e (Approve source_web3 amt) w of
           (Inl err, w1) \<Rightarrow> (Inl err, w1)
         | (Inr _, w1) \<Rightarrow>
             (case send_contract_tx e (DepositForBurn source_web3 amt dest_chain dest_safe) w1 of
                (Inl err, w2) \<Rightarrow> (Inl err, w2)
              | (Inr h, w2) \<Rightarrow>
                  (Inr \<lparr>b_burn_tx_hash = h, b_amount = amt, b_source_chain_id = source_web3,
                        b_dest_chain_id = dest_chain, b_dest_safe_address = dest_safe\<rparr>, w2))))"

definition receive_usdc_cctp ::
  "env \<Rightarrow> int \<Rightarrow> 8 word list \<Rightarrow> 8 word list \<Rightarrow> world \<Rightarrow> (error + string) \<times> world" where
  "receive_usdc_cctp e dest_chain msg att w =
     send_contract_tx e (ReceiveMessage dest_chain msg att) w"

text \<open>
  \<open>_get_attestation\<close>, the branch \<open>simulate=True\<close>.  \<open>nonce_base + dest_domain\<close> raises
  \<open>TypeError\<close> for an unknown destination domain, and \<open>USDC_NATIVE_TOKEN[source_chain_id]\<close>
  raises \<open>KeyError\<close>.  The burn that made \<open>burn_result\<close> has asserted that the source
  domain is known; a burn result of another origin is answered with \<open>TypeError\<close> too.
\<close>

definition nonce_base :: int where
  "nonce_base = 999999000"

definition get_attestation_simulate ::
  "env \<Rightarrow> CCTPBurnResult \<Rightarrow> string \<Rightarrow> error + 8 word list \<times> 8 word list" where
  "get_attestation_simulate e burn_result test_attester =
     (case resolve_cctp_domain e (b_dest_chain_id burn_result) of
        None \<Rightarrow> Inl TypeError
      | Some dest_domain \<Rightarrow>
          (case USDC_NATIVE_TOKEN e (b_source_chain_id burn_result) of
             None \<Rightarrow> Inl KeyError
           | Some burn_token \<Rightarrow>
               (case resolve_cctp_domain e (b_source_chain_id burn_result) of
                  None \<Rightarrow> Inl TypeError
                | Some source_domain \<Rightarrow>
                    (let msg = craft_cctp_message e source_domain dest_domain
                                 (nonce_base + dest_domain) (b_dest_safe_address burn_result)
                                 (b_amount burn_result) burn_token
                     in Inr (msg, forge_attestation e msg test_attester)))))"

text \<open>
  The branch \<open>simulate=False\<close>: \<open>fetch_attestation\<close> with its default poll interval of 5
  seconds, against the sandbox service for a testnet source chain.
\<close>

definition get_attestation_iris ::
  "env \<Rightarrow> service \<Rightarrow> real \<Rightarrow> CCTPBurnResult \<Rightarrow> real \<Rightarrow> bool
   \<Rightarrow> (8 word list \<times> 8 word list) outcome option" where
  "get_attestation_iris e svc t0 burn_result attestation_timeout cb =
     (case resolve_cctp_domain e (b_source_chain_id burn_result) of
        None \<Rightarrow>
          Some (Inl TypeError, \<lparr>now = t0, attempt = 0, last_phase = None, calls = [], requests = 0\<rparr>)
      | Some source_domain \<Rightarrow>
          (let api_url = (if b_source_chain_id burn_result \<in> set (TESTNET_CHAIN_IDS e)
                          then IRIS_API_SANDBOX_URL e else IRIS_API_BASE_URL e)
           in case fetch_attestation (CCTP_DOMAIN_NAMES e) svc t0 source_domain
                     (b_burn_tx_hash burn_result) attestation_timeout 5 api_url cb of
                None \<Rightarrow> None
              | Some (Inl err, s) \<Rightarrow> Some (Inl err, s)
              | Some (Inr a, s) \<Rightarrow> Some (Inr (message a, attestation a), s)))"

subsection \<open>The parallel bridge\<close>

text \<open>
  What the threads of one bridge call do is fixed by the code; when they do it is not.
  A \<open>timing\<close> holds everything that is left open: how worker \<open>i\<close> of the attestation
  pool sees the service and when it starts, the order in which the threads take the
  tracker's lock and submit their calls, and the order in which the futures complete.
\<close>

record timing =
  services :: "nat \<Rightarrow> service"
  started :: "nat \<Rightarrow> real"
  attest_schedule :: "nat list"
  attest_order :: "nat list"
  receive_schedule :: "nat list"
  receive_order :: "nat list"

text \<open>Phase 1, \<open>for idx, dest in enumerate(destinations)\<close>, from index \<open>idx\<close> on.\<close>

fun burn_phase ::
  "env \<Rightarrow> string list \<Rightarrow> int \<Rightarrow> nat \<Rightarrow> CCTPBridgeDestination list \<Rightarrow> CCTPBurnResult list
   \<Rightarrow> world \<Rightarrow> (error + CCTPBurnResult list) \<times> world" where
  "burn_phase e dest_names source_web3 idx [] burn_results w = (Inr burn_results, w)"
| "burn_phase e dest_names source_web3 idx (dest # rest) burn_results w =
     (case track dest_names idx burning 0 w of
        Inl err \<Rightarrow> (Inl err, w)
      | Inr w1 \<Rightarrow>
          (case burn_usdc_cctp e source_web3 (dest_web3 dest) (dest_safe_address dest)
                  (amount dest) w1 of
             (Inl err, w2) \<Rightarrow> (Inl err, w2)
           | (Inr burn_result, w2) \<Rightarrow>
               burn_phase e dest_names source_web3 (Suc idx) rest
                 (burn_results @ [burn_result]) w2))"

text \<open>Phase 2 with \<open>simulate=True\<close>: \<open>for idx, burn_result in enumerate(burn_results)\<close>.\<close>

fun forge_phase ::
  "env \<Rightarrow> string list \<Rightarrow> int list \<Rightarrow> (int \<rightharpoonup> string) \<Rightarrow> nat \<Rightarrow> CCTPBurnResult list
   \<Rightarrow> (8 word list \<times> 8 word list) list \<Rightarrow> world
   \<Rightarrow> (error + (8 word list \<times> 8 word list) list) \<times> world" where
  "forge_phase e dest_names dest_chain_ids test_attesters idx [] attestation_data w =
     (Inr attestation_data, w)"
| "forge_phase e dest_names dest_chain_ids test_attesters idx (burn_result # rest)
     attestation_data w =
     (case test_attesters (dest_chain_ids ! idx) of
        None \<Rightarrow> (Inl KeyError, w)
      | Some attester \<Rightarrow>
          (case track dest_names idx attested 0 w of
             Inl err \<Rightarrow> (Inl err, w)
           | Inr w1 \<Rightarrow>
               (case get_attestation_simulate e burn_result attester of
                  Inl err \<Rightarrow> (Inl err, w1)
                | Inr d \<Rightarrow>
                    forge_phase e dest_names dest_chain_ids test_attesters (Suc idx) rest
                      (attestation_data @ [d]) w1)))"

text \<open>
  Phase 2 with \<open>simulate=False\<close>.  The closure \<open>on_phase\<close> turns a callback of
  \<open>fetch_attestation\<close> into a tracker update, or into nothing for a status it does not know.
\<close>

definition phase_map :: "string option \<Rightarrow> CCTPBridgePhase option" where
  "phase_map iris_status =
     (if iris_status = Some ''waiting_for_indexing'' then Some waiting_for_indexing
      else if iris_status = Some ''pending_confirmations'' then Some pending_confirmations
      else if iris_status = Some ''complete'' then Some attested
      else None)"

definition on_phase_updates ::
  "nat \<Rightarrow> (string option \<times> nat) list \<Rightarrow> (nat \<times> CCTPBridgePhase \<times> nat) list" where
  "on_phase_updates idx cs =
     concat (map (\<lambda>(iris_status, k).
                    case phase_map iris_status of None \<Rightarrow> [] | Some ph \<Rightarrow> [(idx, ph, k)]) cs)"

text \<open>
  The threads' steps in the order \<open>schedule\<close> gives: each entry lets that thread take its
  next step, if it has one and may take it; what is left when the schedule ends follows
  thread by thread.
\<close>

fun interleave :: "(nat \<Rightarrow> 'e list list \<Rightarrow> bool) \<Rightarrow> nat list \<Rightarrow> 'e list list \<Rightarrow> 'e list" where
  "interleave enabled [] threads = concat threads"
| "interleave enabled (t # ts) threads =
     (if t < length threads \<and> enabled t threads then
        (case threads ! t of
           [] \<Rightarrow> interleave enabled ts threads
         | x # xs \<Rightarrow> x # interleave enabled ts (threads[t := xs]))
      else interleave enabled ts threads)"

text \<open>
  Thread 0 is the caller's loop, which marks transfer \<open>i\<close> as \<open>waiting_for_indexing\<close> and
  then submits worker \<open>i\<close>; thread \<open>i + 1\<close> is worker \<open>i\<close>, which cannot step before it is
  submitted.
\<close>

definition submitted :: "nat \<Rightarrow> nat \<Rightarrow> (nat \<times> CCTPBridgePhase \<times> nat) list list \<Rightarrow> bool" where
  "submitted n t threads = (t = 0 \<or> length (threads ! 0) + t \<le> n)"

definition attest_phase ::
  "env \<Rightarrow> timing \<Rightarrow> string list \<Rightarrow> CCTPBurnResult list \<Rightarrow> real \<Rightarrow> int option \<Rightarrow> world
   \<Rightarrow> ((error + (8 word list \<times> 8 word list) list) \<times> world) option" where
  "attest_phase e tm dest_names burn_results attestation_timeout max_workers w =
     (let n = length burn_results in
      if \<not> executor_ok max_workers n then Some (Inl ValueError, w)
      else
        (case those (map (\<lambda>idx. get_attestation_iris e (services tm idx) (started tm idx)
                             (burn_results ! idx) attestation_timeout True) [0..<n]) of
           None \<Rightarrow> None
         | Some done \<Rightarrow>
             (let updates =
                    interleave (submitted n) (attest_schedule tm)
                      (map (\<lambda>idx. (idx, waiting_for_indexing, 0)) [0..<n]
                       # map (\<lambda>idx. on_phase_updates idx (calls (snd (done ! idx)))) [0..<n]);
                  w1 = w\<lparr>http_requests := http_requests w + sum_list (map (requests \<circ> snd) done)\<rparr>
              in case feed dest_names updates (bar w1) of
                   Inl err \<Rightarrow> Some (Inl err, w1)
                 | Inr p \<Rightarrow>
                     (case collect_results (attest_order tm) (map fst done) Map.empty of
                        Inl err \<Rightarrow> Some (Inl err, w1\<lparr>bar := p\<rparr>)
                      | Inr indexed_results \<Rightarrow>
                          Some (in_input_order indexed_results [0..<n], w1\<lparr>bar := p\<rparr>)))))"

text \<open>
  Phase 3 with \<open>simulate=True\<close>:
  \<open>for idx, (dest, (message, attestation)) in enumerate(zip(destinations, attestation_data))\<close>.
\<close>

fun receive_phase_simulate ::
  "env \<Rightarrow> string list \<Rightarrow> nat \<Rightarrow> (CCTPBridgeDestination \<times> 8 word list \<times> 8 word list) list
   \<Rightarrow> string list \<Rightarrow> world \<Rightarrow> (error + string list) \<times> world" where
  "receive_phase_simulate e dest_names idx [] receive_tx_hashes w = (Inr receive_tx_hashes, w)"
| "receive_phase_simulate e dest_names idx ((dest, msg, att) # rest) receive_tx_hashes w =
     (case track dest_names idx receiving 0 w of
        Inl err \<Rightarrow> (Inl err, w)
      | Inr w1 \<Rightarrow>
          (case receive_usdc_cctp e (dest_web3 dest) msg att w1 of
             (Inl err, w2) \<Rightarrow> (Inl err, w2)
           | (Inr h, w2) \<Rightarrow>
               (case track dest_names idx complete 0 w2 of
                  Inl err \<Rightarrow> (Inl err, w2)
                | Inr w3 \<Rightarrow>
                    receive_phase_simulate e dest_names (Suc idx) rest
                      (receive_tx_hashes[idx := h]) w3)))"

text \<open>
  Phase 3 with \<open>simulate=False\<close>.  A worker runs \<open>_receive_with_progress\<close>: it marks its
  transfer as \<open>receiving\<close>, submits the receive, and marks it \<open>complete\<close>.
\<close>

datatype receiver = Submitted | Marked | Received string | Finished "error + string"

definition receive_step ::
  "env \<Rightarrow> string list \<Rightarrow> (CCTPBridgeDestination \<times> 8 word list \<times> 8 word list) list \<Rightarrow> nat
   \<Rightarrow> receiver \<Rightarrow> world \<Rightarrow> receiver \<times> world" where
  "receive_step e dest_names jobs idx r w =
     (case r of
        Submitted \<Rightarrow>
          (case track dest_names idx receiving 0 w of
             Inl err \<Rightarrow> (Finished (Inl err), w)
           | Inr w1 \<Rightarrow> (Marked, w1))
      | Marked \<Rightarrow>
          (case jobs ! idx of
             (dest, msg, att) \<Rightarrow>
               (case receive_usdc_cctp e (dest_web3 dest) msg att w of
                  (Inl err, w1) \<Rightarrow> (Finished (Inl err), w1)
                | (Inr h, w1) \<Rightarrow> (Received h, w1)))
      | Received h \<Rightarrow>
          (case track dest_names idx complete 0 w of
             Inl err \<Rightarrow> (Finished (Inl err), w)
           | Inr w1 \<Rightarrow> (Finished (Inr h), w1))
      | Finished x \<Rightarrow> (Finished x, w))"

fun run_receivers ::
  "env \<Rightarrow> string list \<Rightarrow> (CCTPBridgeDestination \<times> 8 word list \<times> 8 word list) list \<Rightarrow> nat list
   \<Rightarrow> receiver list \<Rightarrow> world \<Rightarrow> receiver list \<times> world" where
  "run_receivers e dest_names jobs [] rs w = (rs, w)"
| "run_receivers e dest_names jobs (t # ts) rs w =
     (if t < length rs then
        (case receive_step e dest_names jobs t (rs ! t) w of
           (r, w1) \<Rightarrow> run_receivers e dest_names jobs ts (rs[t := r]) w1)
      else run_receivers e dest_names jobs ts rs w)"

definition receiver_result :: "receiver \<Rightarrow> (error + string) option" where
  "receiver_result r = (case r of Finished x \<Rightarrow> Some x | _ \<Rightarrow> None)"

text \<open>\<open>for future in as_completed(futures): receive_tx_hashes[futures[future]] = future.result()\<close>\<close>

fun collect_hashes :: "nat list \<Rightarrow> (error + string) list \<Rightarrow> string list \<Rightarrow> error + string list" where
  "collect_hashes [] outs receive_tx_hashes = Inr receive_tx_hashes"
| "collect_hashes (idx # rest) outs receive_tx_hashes =
     (if idx < length outs then
        (case outs ! idx of
           Inl err \<Rightarrow> Inl err
         | Inr h \<Rightarrow> collect_hashes rest outs (receive_tx_hashes[idx := h]))
      else collect_hashes rest outs receive_tx_hashes)"

definition receive_phase_parallel ::
  "env \<Rightarrow> timing \<Rightarrow> string list \<Rightarrow> (CCTPBridgeDestination \<times> 8 word list \<times> 8 word list) list
   \<Rightarrow> int option \<Rightarrow> string list \<Rightarrow> world \<Rightarrow> ((error + string list) \<times> world) option" where
  "receive_phase_parallel e tm dest_names jobs max_workers receive_tx_hashes w =
     (let n = length jobs in
      if \<not> executor_ok max_workers n then Some (Inl ValueError, w)
      else
        (case run_receivers e dest_names jobs
                (receive_schedule tm @ concat (map (replicate 3) [0..<n]))
                (replicate n Submitted) w of
           (rs, w1) \<Rightarrow>
             (case those (map receiver_result rs) of
                None \<Rightarrow> None
              | Some outs \<Rightarrow> Some (collect_hashes (receive_order tm) outs receive_tx_hashes, w1))))"

text \<open>The closing loop that builds the results from \<open>zip(burn_results, destinations)\<close>.\<close>

definition build_results ::
  "CCTPBurnResult list \<Rightarrow> CCTPBridgeDestination list \<Rightarrow> string list \<Rightarrow> CCTPBridgeResult list" where
  "build_results burn_results destinations receive_tx_hashes =
     map (\<lambda>(idx, burn_result, dest).
            \<lparr>burn_tx_hash = b_burn_tx_hash burn_result,
             receive_tx_hash = receive_tx_hashes ! idx,
             r_amount = b_amount burn_result,
             source_chain_id = b_source_chain_id burn_result,
             dest_chain_id = b_dest_chain_id burn_result\<rparr>)
         (zip [0..<length burn_results] (zip burn_results destinations))"

definition new_progress :: "nat \<Rightarrow> progress" where
  "new_progress n_dest =
     \<lparr>transfer_phases = replicate n_dest burning, poll_counts = replicate n_dest 0,
      bar_n = 0, bar_description = ''CCTP bridge'', bar_postfix = []\<rparr>"

definition bridge_usdc_cctp_parallel ::
  "env \<Rightarrow> timing \<Rightarrow> int \<Rightarrow> CCTPBridgeDestination list \<Rightarrow> bool \<Rightarrow> (int \<rightharpoonup> string) option \<Rightarrow> real
   \<Rightarrow> int option \<Rightarrow> world \<Rightarrow> ((error + CCTPBridgeResult list) \<times> world) option" where
  "bridge_usdc_cctp_parallel e tm source_web3 destinations simulate test_attesters
     attestation_timeout max_workers w =
     (if destinations = [] then Some (Inr [], w)
      else if simulate \<and> test_attesters = None then
        Some (Inl (AssertionError ''test_attesters is required in simulate mode''), w)
      else
        let max_workers = (case max_workers of None \<Rightarrow> Some (int (length destinations))
                           | Some m \<Rightarrow> Some m);
            n_dest = length destinations;
            dest_chain_ids = map dest_web3 destinations;
            dest_names = map (get_chain_name e) dest_chain_ids;
            w0 = w\<lparr>bar := new_progress n_dest\<rparr>
        in case burn_phase e dest_names source_web3 0 destinations [] w0 of
             (Inl err, w1) \<Rightarrow> Some (Inl err, w1)
           | (Inr burn_results, w1) \<Rightarrow>
               (case (if simulate
                      then Some (forge_phase e dest_names dest_chain_ids (the test_attesters) 0
                                   burn_results [] w1)
                      else attest_phase e tm dest_names burn_results attestation_timeout
                             max_workers w1) of
                  None \<Rightarrow> None
                | Some (Inl err, w2) \<Rightarrow> Some (Inl err, w2)
                | Some (Inr attestation_data, w2) \<Rightarrow>
                    (case (if simulate
                           then Some (receive_phase_simulate e dest_names 0
                                        (zip destinations attestation_data)
                                        (replicate n_dest []) w2)
                           else receive_phase_parallel e tm dest_names
                                  (zip destinations attestation_data) max_workers
                                  (replicate n_dest []) w2) of
                       None \<Rightarrow> None
                     | Some (Inl err, w3) \<Rightarrow> Some (Inl err, w3)
                     | Some (Inr receive_tx_hashes, w3) \<Rightarrow>
                         Some (Inr (build_results burn_results destinations receive_tx_hashes),
                               w3))))"

section \<open>Concrete services and inputs\<close>

text \<open>
  The mock service of the scenario: \<open>404\<close> on the first query, then
  \<open>{"messages":[{"status":"complete","attestation":"0xdead","message":"0xbeef"}]}\<close>.
\<close>

definition scenario_message :: iris_message where
  "scenario_message =
     \<lparr>msg_status = JStr ''complete'', msg_attestation = JStr ''0xdead'',
      msg_message = JStr ''0xbeef'', msg_eventNonce = JAbsent, msg_delayReason = JAbsent,
      msg_destinationDomain = None, msg_cctpVersion = None\<rparr>"

definition scenario_service :: service where
  "scenario_service url k =
     (if k = 1 then \<lparr>took = 0, reply = Response 404 []\<rparr>
      else \<lparr>took = 0, reply = Response 200 [scenario_message]\<rparr>)"

text \<open>Services for the concrete runs below: one that always fails, and one that always waits.\<close>

definition failing_service :: service where
  "failing_service url k = \<lparr>took = 0, reply = Response 500 []\<rparr>"

definition pending_message :: iris_message where
  "pending_message =
     \<lparr>msg_status = JStr ''pending_confirmations'', msg_attestation = JStr ''PENDING'',
      msg_message = JStr ''0xbeef'', msg_eventNonce = JAbsent, msg_delayReason = JNull,
      msg_destinationDomain = Some 6, msg_cctpVersion = Some 2\<rparr>"

definition pending_service :: service where
  "pending_service url k = \<lparr>took = 0, reply = Response 200 [pending_message]\<rparr>"

text \<open>
  Two more services: 404 on the first two requests and then the complete message of the
  scenario; 404 on the first request and then HTTP 503.
\<close>

definition late_service :: service where
  "late_service url k =
     (if k \<le> 2 then \<lparr>took = 0, reply = Response 404 []\<rparr>
      else \<lparr>took = 0, reply = Response 200 [scenario_message]\<rparr>)"

definition broken_service :: service where
  "broken_service url k =
     (if k = 1 then \<lparr>took = 0, reply = Response 404 []\<rparr>
      else \<lparr>took = 0, reply = Response 503 []\<rparr>)"

text \<open>
  The approval and the burn that the burn phase submits for one destination, and what a
  burn result records of its destination.
\<close>

definition burn_txs :: "int \<Rightarrow> CCTPBridgeDestination \<Rightarrow> tx list" where
  "burn_txs source_web3 d =
     [Approve source_web3 (amount d),
      DepositForBurn source_web3 (amount d) (dest_web3 d) (dest_safe_address d)]"

definition burned :: "env \<Rightarrow> int \<Rightarrow> CCTPBridgeDestination \<Rightarrow> CCTPBurnResult \<Rightarrow> bool" where
  "burned e source_web3 d b =
     (b_amount b = amount d \<and> b_source_chain_id b = source_web3 \<and>
      b_dest_chain_id b = dest_web3 d \<and> b_dest_safe_address b = dest_safe_address d \<and>
      (\<exists>log. b_burn_tx_hash b =
               fst (execute e log (DepositForBurn source_web3 (amount d) (dest_web3 d)
                                     (dest_safe_address d)))))"

text \<open>
  A world in which nothing has happened yet, chains that accept every call and name a
  transaction after its position in the log, and a timing in which the last worker
  finishes first.
\<close>

definition idle_world :: world where
  "idle_world = \<lparr>txs = [], bar = new_progress 0, http_requests = 0\<rparr>"

definition test_env :: env where
  "test_env =
     \<lparr>resolve_cctp_domain =
        (\<lambda>c. if c = 42161 then Some 3 else if c = 8453 then Some 6
              else if c = 1 then Some 0 else None),
      prepare = (\<lambda>t. None),
      execute = (\<lambda>log t. (''0x'' @ str_nat (length log), True)),
      get_chain_name = (\<lambda>c. if c = 8453 then ''Base'' else if c = 1 then ''Ethereum''
                             else ''Unknown''),
      craft_cctp_message = (\<lambda>sd dd n r a tok. [word_of_int sd, word_of_int dd]),
      forge_attestation = (\<lambda>m a. m),
      USDC_NATIVE_TOKEN = [42161 \<mapsto> ''0xaf88''],
      TESTNET_CHAIN_IDS = [],
      IRIS_API_BASE_URL = ''https://iris-api.circle.com'',
      IRIS_API_SANDBOX_URL = ''https://iris-api-sandbox.circle.com'',
      CCTP_DOMAIN_NAMES = Map.empty\<rparr>"

definition test_timing :: timing where
  "test_timing =
     \<lparr>services = (\<lambda>i. scenario_service), started = (\<lambda>i. 0),
      attest_schedule = [2, 1, 2, 1], attest_order = [1, 0],
      receive_schedule = [1, 1, 0, 1], receive_order = [1, 0]\<rparr>"

definition to_base :: CCTPBridgeDestination where
  "to_base = \<lparr>dest_web3 = 8453, dest_safe_address = ''0xBa5e'', amount = 1000000\<rparr>"

definition to_ethereum :: CCTPBridgeDestination where
  "to_ethereum = \<lparr>dest_web3 = 1, dest_safe_address = ''0xE7e1'', amount = 2000000\<rparr>"

definition to_nowhere :: CCTPBridgeDestination where
  "to_nowhere = \<lparr>dest_web3 = 99999, dest_safe_address = ''0xdead'', amount = 1000000\<rparr>"

(*DEFS-END*)

section \<open>Properties of the attestation client\<close>

lemmas eval_defs =
  fetch_attestation_def fetch_pass_def notify_def sleep_def http_get_def with_0x_prefix_def
  domain_name_of_def messages_url_def HTTP_NOT_FOUND_def raise_for_status_def
  attestation_ready_def get_status_def decode_attestation_def hexval_def is_space_def Let_def

text \<open>
  C4.  For source domain 3 and transaction hash \<open>0xabc...\<close>, with the default timeout of
  300 s and poll interval of 5 s, against the mock service that answers 404 once and then the
  complete message, \<open>fetch_attestation\<close> returns
  \<open>CCTPAttestation(message=b'\\xbe\\xef', attestation=b'\\xde\\xad', status="complete")\<close>
  after exactly two polls: two HTTP requests were issued and \<open>attempt\<close> is 2.
\<close>

theorem scenario_two_polls:
  "\<exists>s. fetch_attestation names scenario_service t0 3 ''0xabc...'' 300 5 api_base_url cb =
         Some (Inr \<lparr>message = [0xbe, 0xef], attestation = [0xde, 0xad], status = ''complete''\<rparr>, s)
       \<and> requests s = 2 \<and> attempt s = 2"
  by (simp add: eval_defs fetch_loop.simps scenario_service_def scenario_message_def)


section \<open>Properties of the progress tracker\<close>

lemma phase_value_inj: "phase_value a = phase_value b \<longleftrightarrow> a = b"
  by (cases a; cases b; simp)

lemma update_phase_same:
  assumes "update_phase names idx ph k p = Inr p'" and "transfer_phases p ! idx = ph"
  shows "bar_n p' = bar_n p \<and> transfer_phases p' = transfer_phases p
         \<and> bar_description p' = bar_description p
         \<and> poll_counts p' = (if k > 0 then (poll_counts p)[idx := k] else poll_counts p)"
  using assms by (auto simp: update_phase_def Let_def split: if_splits)

lemma update_phase_change:
  assumes "update_phase names idx ph k p = Inr p'" and "transfer_phases p ! idx \<noteq> ph"
  shows "bar_n p' = bar_n p + nat (max 0 (int (phase_index ph) - int (phase_index (transfer_phases p ! idx))))
         \<and> transfer_phases p' = (transfer_phases p)[idx := ph]"
  using assms by (auto simp: update_phase_def Let_def phase_value_inj split: if_splits)

lemma update_phase_mono:
  assumes "update_phase names idx ph k p = Inr p'"
  shows "bar_n p \<le> bar_n p'"
  using assms by (auto simp: update_phase_def Let_def split: if_splits)

lemma feed_mono: "feed names us p = Inr p' \<Longrightarrow> bar_n p \<le> bar_n p'"
proof (induction us arbitrary: p)
  case Nil then show ?case by simp
next
  case (Cons u us)
  obtain idx ph k where u: "u = (idx, ph, k)" by (cases u)
  from Cons.prems u obtain q where q: "update_phase names idx ph k p = Inr q" and r: "feed names us q = Inr p'"
    by (auto split: sum.splits)
  from update_phase_mono[OF q] Cons.IH[OF r] show ?case by simp
qed

lemma feed_append:
  "feed names (us @ vs) p = Inr p'' \<Longrightarrow> \<exists>p'. feed names us p = Inr p' \<and> feed names vs p' = Inr p''"
proof (induction us arbitrary: p)
  case Nil then show ?case by simp
next
  case (Cons u us)
  obtain idx ph k where u: "u = (idx, ph, k)" by (cases u)
  from Cons.prems u obtain q where q: "update_phase names idx ph k p = Inr q" and r: "feed names (us @ vs) q = Inr p''"
    by (auto split: sum.splits)
  from Cons.IH[OF r] q u show ?case by auto
qed

text \<open>
  C6.  However the tracker is fed, the cumulative advancement counter \<open>bar_n\<close> never
  decreases: along any sequence of updates it is at every point at least what it was before
  (also when a transfer is reported \<open>attested\<close> and later \<open>pending_confirmations\<close>).  An
  update that leaves the phase unchanged only refreshes the attempt counter, and a phase
  change advances the counter by \<open>max(0, new_ord - old_ord)\<close>.
\<close>

theorem progress_counter_never_decreases:
  "(\<forall>us vs p p''. feed names (us @ vs) p = Inr p'' \<longrightarrow>
      (\<exists>p'. feed names us p = Inr p' \<and> bar_n p \<le> bar_n p' \<and> bar_n p' \<le> bar_n p''))
   \<and> (\<forall>idx ph k p p'. update_phase names idx ph k p = Inr p' \<and> transfer_phases p ! idx = ph \<longrightarrow>
         bar_n p' = bar_n p \<and> transfer_phases p' = transfer_phases p
         \<and> poll_counts p' = (if k > 0 then (poll_counts p)[idx := k] else poll_counts p))
   \<and> (\<forall>idx ph k p p'. update_phase names idx ph k p = Inr p' \<and> transfer_phases p ! idx \<noteq> ph \<longrightarrow>
         bar_n p' = bar_n p + nat (max 0 (int (phase_index ph) - int (phase_index (transfer_phases p ! idx)))))"
proof (intro conjI allI impI)
  fix us vs p p'' assume a: "feed names (us @ vs) p = Inr p''"
  from feed_append[OF a] obtain p' where "feed names us p = Inr p'" "feed names vs p' = Inr p''" by blast
  then show "\<exists>p'. feed names us p = Inr p' \<and> bar_n p \<le> bar_n p' \<and> bar_n p' \<le> bar_n p''"
    using feed_mono by blast
next
  fix idx ph k p p' assume "update_phase names idx ph k p = Inr p' \<and> transfer_phases p ! idx = ph"
  then show "bar_n p' = bar_n p" "transfer_phases p' = transfer_phases p"
    "poll_counts p' = (if k > 0 then (poll_counts p)[idx := k] else poll_counts p)"
    using update_phase_same by blast+
next
  fix idx ph k p p' assume "update_phase names idx ph k p = Inr p' \<and> transfer_phases p ! idx \<noteq> ph"
  then show "bar_n p' = bar_n p + nat (max 0 (int (phase_index ph) - int (phase_index (transfer_phases p ! idx))))"
    using update_phase_change by blast
qed

lemma sn: "str_nat 0 = ''0''" "str_nat 3 = ''3''" "str_nat 4 = ''4''"
  by (simp_all add: str_nat.simps)

theorem progress_counter_never_decreases_witness:
  "\<exists>p' p''. feed [''Base''] [(0, attested, 3)] (new_progress 1) = Inr p'
     \<and> feed [''Base''] ([(0, attested, 3)] @ [(0, pending_confirmations, 4)]) (new_progress 1) = Inr p''
     \<and> bar_n p' = 3 \<and> bar_n p'' = 3 \<and> transfer_phases p'' = [pending_confirmations]"
proof -
  have f: "feed [''Base''] ([(0, attested, 3)] @ [(0, pending_confirmations, 4)]) (new_progress 1)
     = Inr \<lparr>transfer_phases = [pending_confirmations], poll_counts = [4], bar_n = 3,
            bar_description = ''CCTP [Base:pending_confirmations]'', bar_postfix = ''polls: 4''\<rparr>"
    by (simp add: update_phase_def new_progress_def Let_def phases_description_def polls_postfix_def sn)
  have g: "feed [''Base''] [(0, attested, 3)] (new_progress 1)
     = Inr \<lparr>transfer_phases = [attested], poll_counts = [3], bar_n = 3,
            bar_description = ''CCTP [Base:attested]'', bar_postfix = ''polls: 3''\<rparr>"
    by (simp add: update_phase_def new_progress_def Let_def phases_description_def polls_postfix_def sn)
  from progress_counter_never_decreases[of "[''Base'']"] f g show ?thesis by simp
qed

section \<open>Rules for the polling loops\<close>

lemmas poll_loop_induct = poll_loop.raw_induct[rotated 1, consumes 1, case_names step]
lemmas fetch_loop_induct = fetch_loop.raw_induct[rotated 1, consumes 1, case_names step]

lemma fetch_loop_invariant:
  assumes run: "fetch_loop svc url tx dn T p cb start s = Some y"
    and init: "I s"
    and again: "\<And>s s2. I s \<Longrightarrow> fetch_pass svc url tx dn T p cb start s = Inr s2 \<Longrightarrow> I s2"
    and leave: "\<And>s out. I s \<Longrightarrow> fetch_pass svc url tx dn T p cb start s = Inl out \<Longrightarrow> Q out"
  shows "Q y"
proof -
  have "fetch_loop svc' url' tx' dn' T' p' cb' start' s = Some y \<Longrightarrow>
        svc' = svc \<and> url' = url \<and> tx' = tx \<and> dn' = dn \<and> T' = T \<and> p' = p \<and> cb' = cb \<and> start' = start \<Longrightarrow>
        I s \<Longrightarrow> Q y" for svc' url' tx' dn' T' p' cb' start'
  proof (induction rule: fetch_loop_induct)
    case (step f svc' url' tx' dn' T' p' cb' start' s y)
    show ?case
    proof (cases "fetch_pass svc url tx dn T p cb start s")
      case (Inl out)
      with step(2,3) have "y = out" by simp
      with leave[OF step(4) Inl] show ?thesis by simp
    next
      case (Inr s2)
      with step(2,3) have "f svc' url' tx' dn' T' p' cb' start' s2 = Some y" by simp
      from step(1)[OF this step(3) again[OF step(4) Inr]] show ?thesis .
    qed
  qed
  from this[OF run _ init] show ?thesis by simp
qed

lemma fetch_loop_total:
  fixes m :: "poll_state \<Rightarrow> nat"
  assumes init: "I s"
    and pass: "\<And>s. I s \<Longrightarrow>
       (case fetch_pass svc url tx dn T p cb start s of
          Inl out \<Rightarrow> Q out
        | Inr s2 \<Rightarrow> I s2 \<and> m s2 < m s)"
  shows "\<exists>y. fetch_loop svc url tx dn T p cb start s = Some y \<and> Q y"
  using init
proof (induction "m s" arbitrary: s rule: less_induct)
  case less
  show ?case
  proof (cases "fetch_pass svc url tx dn T p cb start s")
    case (Inl out)
    with pass[OF less.prems] have "Q out" by simp
    with Inl show ?thesis by (subst fetch_loop.simps) simp
  next
    case (Inr s2)
    with pass[OF less.prems] have "I s2" "m s2 < m s" by simp_all
    from less.hyps[OF this(2) this(1)] obtain y where
      "fetch_loop svc url tx dn T p cb start s2 = Some y" "Q y" by blast
    with Inr show ?thesis by (subst fetch_loop.simps) simp
  qed
qed

lemma poll_loop_invariant:
  assumes run: "poll_loop svc sd tx T p api start s = Some y"
    and init: "I s"
    and again: "\<And>s s2. I s \<Longrightarrow> poll_pass svc sd tx T p api start s = Inr s2 \<Longrightarrow> I s2"
    and leave: "\<And>s out. I s \<Longrightarrow> poll_pass svc sd tx T p api start s = Inl out \<Longrightarrow> Q out"
  shows "Q y"
proof -
  have "poll_loop svc' sd' tx' T' p' api' start' s = Some y \<Longrightarrow>
        svc' = svc \<and> sd' = sd \<and> tx' = tx \<and> T' = T \<and> p' = p \<and> api' = api \<and> start' = start \<Longrightarrow>
        I s \<Longrightarrow> Q y" for svc' sd' tx' T' p' api' start'
  proof (induction rule: poll_loop_induct)
    case (step f svc' sd' tx' T' p' api' start' s y)
    show ?case
    proof (cases "poll_pass svc sd tx T p api start s")
      case (Inl out)
      with step(2,3) have "y = out" by simp
      with leave[OF step(4) Inl] show ?thesis by simp
    next
      case (Inr s2)
      with step(2,3) have "f svc' sd' tx' T' p' api' start' s2 = Some y" by simp
      from step(1)[OF this step(3) again[OF step(4) Inr]] show ?thesis .
    qed
  qed
  from this[OF run _ init] show ?thesis by simp
qed

lemma fetch_pass_timeout:
  "T \<le> now s - start \<Longrightarrow>
   fetch_pass svc url tx dn T p cb start s =
     Inl (Inl (TimeoutError [Lit ''CCTP attestation not ready after '', FloatArg T,
               Lit ''s for tx '', StrArg tx, Lit '' on '', StrArg dn]), s)"
  by (simp add: fetch_pass_def)

lemma fetch_pass_again:
  assumes "fetch_pass svc url tx dn T p cb start s = Inr s2"
  shows "now s - start < T \<and> 0 \<le> p \<and> still_waiting (reply (svc url (Suc (requests s))))
       \<and> requests s2 = Suc (requests s) \<and> attempt s2 = Suc (attempt s)
       \<and> now s2 = now s + took (svc url (Suc (requests s))) + p
       \<and> calls s2 = calls s @ report cb (reply (svc url (Suc (requests s)))) (Suc (attempt s))"
proof (cases "reply (svc url (Suc (requests s)))")
  case ConnectionFailed
  with assms show ?thesis
    by (simp add: fetch_pass_def Let_def http_get_def split: if_splits)
next
  case (Response code ms)
  with assms show ?thesis
    by (cases ms)
       (auto simp: fetch_pass_def Let_def http_get_def sleep_def notify_def still_waiting_def
          reported_def report_def raise_for_status_def HTTP_NOT_FOUND_def
        split: if_splits)
qed

lemma fetch_pass_leave:
  assumes "fetch_pass svc url tx dn T p cb start s = Inl (r, s')"
  shows "(T \<le> now s - start \<and> s' = s \<and> (\<exists>m. r = Inl (TimeoutError m)))
       \<or> (now s - start < T \<and> requests s' = Suc (requests s) \<and> attempt s' = Suc (attempt s)
           \<and> calls s' = calls s @ report cb (reply (svc url (Suc (requests s)))) (Suc (attempt s))
           \<and> (\<forall>m. r \<noteq> Inl (TimeoutError m)))"
proof (cases "reply (svc url (Suc (requests s)))")
  case ConnectionFailed
  with assms show ?thesis
    by (auto simp: fetch_pass_def Let_def http_get_def reported_def report_def split: if_splits)
next
  case (Response code ms)
  with assms show ?thesis
    apply (cases ms)
    apply  (auto simp: fetch_pass_def Let_def http_get_def sleep_def notify_def still_waiting_def
          reported_def report_def raise_for_status_def HTTP_NOT_FOUND_def decode_attestation_def
        split: if_splits jval.splits option.splits)
    done
qed

lemma report_shape: "report cb r k = [] \<or> (\<exists>ph. report cb r k = [(ph, k)])"
  by (simp add: report_def split: option.splits)

lemma report_range_sorted:
  "sorted_wrt (<) (map snd (concat (map (\<lambda>k. report cb (f k) k) [a..<b])))
   \<and> (\<forall>x \<in> set (concat (map (\<lambda>k. report cb (f k) k) [a..<b])). a \<le> snd x \<and> snd x < b)"
proof (induction b)
  case 0 show ?case by simp
next
  case (Suc b)
  show ?case
  proof (cases "a \<le> b")
    case True
    let ?xs = "concat (map (\<lambda>k. report cb (f k) k) [a..<b])"
    have eq: "concat (map (\<lambda>k. report cb (f k) k) [a..<Suc b]) = ?xs @ report cb (f b) b"
      using True by simp
    from Suc have s: "sorted_wrt (<) (map snd ?xs)" and r: "\<forall>x \<in> set ?xs. a \<le> snd x \<and> snd x < b"
      by blast+
    from report_shape[of cb "f b" b] show ?thesis
    proof
      assume "report cb (f b) b = []"
      with eq s r show ?thesis by (auto simp: less_Suc_eq)
    next
      assume "\<exists>ph. report cb (f b) b = [(ph, b)]"
      then obtain ph where "report cb (f b) b = [(ph, b)]" by blast
      with eq s r True show ?thesis by (auto simp: sorted_wrt_append less_Suc_eq)
    qed
  next
    case False then show ?thesis by simp
  qed
qed

lemma fetch_attestation_calls:
  assumes "fetch_attestation names svc t0 sd tx T p api cb = Some (r, s')"
  shows "attempt s' = requests s' \<and>
         calls s' = (if cb then [(Some ''waiting_for_indexing'', 0)] else [])
                     @ concat (map (\<lambda>k. report cb (reply (svc (messages_url api sd (with_0x_prefix tx)) k)) k)
                          [1..<Suc (requests s')])"
proof -
  let ?url = "messages_url api sd (with_0x_prefix tx)"
  let ?I = "\<lambda>s. attempt s = requests s \<and>
         calls s = (if cb then [(Some ''waiting_for_indexing'', 0)] else [])
                     @ concat (map (\<lambda>k. report cb (reply (svc ?url k)) k) [1..<Suc (requests s)])"
  let ?s0 = "notify cb (Some ''waiting_for_indexing'')
               \<lparr>now = t0, attempt = 0, last_phase = None, calls = [], requests = 0\<rparr>"
  from assms have run: "fetch_loop svc ?url (with_0x_prefix tx) (domain_name_of names sd) T p cb t0 ?s0 = Some (r, s')"
    by (simp add: fetch_attestation_def Let_def)
  have init: "?I ?s0" by (simp add: notify_def)
  have "?I (snd (r, s'))"
  proof (rule fetch_loop_invariant[OF run, where I = ?I and Q = "\<lambda>y. ?I (snd y)"])
    show "?I ?s0" by (rule init)
  next
    fix s s2 assume "?I s" and "fetch_pass svc ?url (with_0x_prefix tx) (domain_name_of names sd) T p cb t0 s = Inr s2"
    from fetch_pass_again[OF this(2)] \<open>?I s\<close> show "?I s2" by simp
  next
    fix s out assume i: "?I s" and l: "fetch_pass svc ?url (with_0x_prefix tx) (domain_name_of names sd) T p cb t0 s = Inl out"
    obtain r1 s1 where out: "out = (r1, s1)" by (cases out)
    from fetch_pass_leave[OF l[unfolded out]] i show "?I (snd out)" unfolding out by auto
  qed
  then show ?thesis by simp
qed

section \<open>The progress callback of the attestation client\<close>

lemma scenario_run:
  "fetch_attestation Map.empty scenario_service 0 3 ''0xabc...'' 300 5 ''https://iris-api.circle.com'' True
   = Some (Inr \<lparr>message = [0xbe, 0xef], attestation = [0xde, 0xad], status = ''complete''\<rparr>,
           \<lparr>now = 5, attempt = 2, last_phase = Some ''complete'',
            calls = [(Some ''waiting_for_indexing'', 0), (Some ''waiting_for_indexing'', 1),
                     (Some ''complete'', 2)],
            requests = 2\<rparr>)"
  by (simp add: eval_defs fetch_loop.simps scenario_service_def scenario_message_def)

text \<open>
  C8, as the code has it.  During every call of \<open>fetch_attestation\<close> with a callback that
  returns or raises, the callback is first invoked once before any request, with attempt 0;
  after that each poll whose reply is a 404 or carries a message invokes it with the phase of
  that reply and with the 1-based number of the poll as attempt.  The attempts passed are
  strictly increasing, and they start afresh in every call.
\<close>

theorem callbacks_follow_polls:
  assumes "fetch_attestation names svc t0 sd tx T p api True = Some (r, s')"
  shows "\<exists>rest. calls s' = (Some ''waiting_for_indexing'', 0) # rest
           \<and> sorted_wrt (<) (map snd (calls s'))
           \<and> (\<forall>c \<in> set rest. 1 \<le> snd c \<and> snd c \<le> requests s')
           \<and> (\<forall>k ph. 1 \<le> k \<and> k \<le> requests s'
                 \<and> reported (reply (svc (messages_url api sd (with_0x_prefix tx)) k)) = Some ph
                 \<longrightarrow> (ph, k) \<in> set rest)"
proof -
  let ?f = "\<lambda>k. reply (svc (messages_url api sd (with_0x_prefix tx)) k)"
  define rest where "rest = concat (map (\<lambda>k. report True (?f k) k) [1..<Suc (requests s')])"
  from fetch_attestation_calls[OF assms]
  have c: "calls s' = (Some ''waiting_for_indexing'', 0) # rest" by (simp add: rest_def)
  from report_range_sorted[of True ?f 1 "Suc (requests s')"]
  have s: "sorted_wrt (<) (map snd rest)"
    and b: "\<forall>x \<in> set rest. 1 \<le> snd x \<and> snd x < Suc (requests s')"
    unfolding rest_def by blast+
  from b have pos: "\<forall>x \<in> set rest. 0 < snd x" by force
  have 1: "sorted_wrt (<) (map snd (calls s'))"
    unfolding c using s pos by simp
  have 2: "\<forall>c \<in> set rest. 1 \<le> snd c \<and> snd c \<le> requests s'"
    using b by force
  have 3: "\<forall>k ph. 1 \<le> k \<and> k \<le> requests s' \<and> reported (?f k) = Some ph \<longrightarrow> (ph, k) \<in> set rest"
  proof (intro allI impI)
    fix k ph assume a: "1 \<le> k \<and> k \<le> requests s' \<and> reported (?f k) = Some ph"
    then have "k \<in> set [1..<Suc (requests s')]" by auto
    moreover from a have "(ph, k) \<in> set (report True (?f k) k)" by (simp add: report_def)
    ultimately show "(ph, k) \<in> set rest" unfolding rest_def by (simp only: set_concat set_map) blast
  qed
  from c 1 2 3 show ?thesis by blast
qed

text \<open>
  The run of the spec's scenario with a callback: the callback receives the attempts 0, 1
  and 2, so the first attempt it is given is not 1.
\<close>

theorem first_callback_has_attempt_zero:
  "fetch_attestation Map.empty scenario_service 0 3 ''0xabc...'' 300 5 ''https://iris-api.circle.com'' True
   = Some (Inr \<lparr>message = [0xbe, 0xef], attestation = [0xde, 0xad], status = ''complete''\<rparr>,
           \<lparr>now = 5, attempt = 2, last_phase = Some ''complete'',
            calls = [(Some ''waiting_for_indexing'', 0), (Some ''waiting_for_indexing'', 1),
                     (Some ''complete'', 2)],
            requests = 2\<rparr>)"
  by (rule scenario_run)

theorem callbacks_follow_polls_witness:
  "\<exists>r s rest. fetch_attestation Map.empty scenario_service 0 3 ''0xabc...'' 300 5
                 ''https://iris-api.circle.com'' True = Some (r, s)
       \<and> calls s = (Some ''waiting_for_indexing'', 0) # rest
       \<and> sorted_wrt (<) (map snd (calls s)) \<and> (Some ''complete'', 2) \<in> set rest"
proof -
  from callbacks_follow_polls[OF scenario_run] obtain rest where
    r: "[(Some ''waiting_for_indexing'', 0), (Some ''waiting_for_indexing'', 1), (Some ''complete'', 2)]
          = (Some ''waiting_for_indexing'', 0::nat) # rest"
    by auto
  then have "(Some ''complete'', 2) \<in> set rest" by auto
  with r scenario_run show ?thesis by auto
qed

section \<open>The one-shot check\<close>

lemma is_attestation_complete_total:
  "\<exists>b n. is_attestation_complete svc sd tx api = (Inr b, n)"
proof (cases "reply (svc (messages_url api sd (with_0x_prefix tx)) 1)")
  case ConnectionFailed
  then have "is_attestation_complete svc sd tx api = (Inr False, 1)"
    by (simp add: is_attestation_complete_def is_attestation_complete_try_def is_request_exception_def)
  then show ?thesis by blast
next
  case (Response code ms)
  show ?thesis
  proof (cases "400 \<le> code \<and> code < 600")
    case True
    with Response have "is_attestation_complete svc sd tx api = (Inr False, 1)"
      by (simp add: is_attestation_complete_def is_attestation_complete_try_def
          is_request_exception_def raise_for_status_def)
    then show ?thesis by blast
  next
    case False
    with Response have "is_attestation_complete svc sd tx api =
       (Inr (case ms of [] \<Rightarrow> False | msg # _ \<Rightarrow> first_message_complete msg), 0)"
      by (cases ms)
         (simp_all add: is_attestation_complete_def is_attestation_complete_try_def
          is_request_exception_def raise_for_status_def)
    then show ?thesis by blast
  qed
qed

lemma is_attestation_complete_error:
  assumes "reply (svc (messages_url api sd (with_0x_prefix tx)) 1) = ConnectionFailed
     \<or> (\<exists>code ms. reply (svc (messages_url api sd (with_0x_prefix tx)) 1) = Response code ms
            \<and> 400 \<le> code \<and> code < 600)"
  shows "is_attestation_complete svc sd tx api = (Inr False, 1)"
  using assms
  by (auto simp: is_attestation_complete_def is_attestation_complete_try_def
        raise_for_status_def is_request_exception_def)

lemma is_attestation_complete_true:
  "fst (is_attestation_complete svc sd tx api) = Inr True \<longleftrightarrow>
     (\<exists>code msg rest a. reply (svc (messages_url api sd (with_0x_prefix tx)) 1) = Response code (msg # rest)
        \<and> \<not> (400 \<le> code \<and> code < 600) \<and> msg_status msg = JStr ''complete''
        \<and> msg_attestation msg = JStr a \<and> a \<noteq> ''PENDING'')"
proof (cases "reply (svc (messages_url api sd (with_0x_prefix tx)) 1)")
  case ConnectionFailed
  then show ?thesis
    by (simp add: is_attestation_complete_def is_attestation_complete_try_def is_request_exception_def)
next
  case (Response code ms)
  show ?thesis
  proof (cases ms)
    case Nil
    with Response show ?thesis
      by (simp add: is_attestation_complete_def is_attestation_complete_try_def
          is_request_exception_def raise_for_status_def)
  next
    case (Cons msg rest)
    with Response show ?thesis
      by (cases "msg_attestation msg")
         (simp_all add: is_attestation_complete_def is_attestation_complete_try_def
          is_request_exception_def raise_for_status_def first_message_complete_def)
  qed
qed

text \<open>
  C9.  \<open>is_attestation_complete\<close> never raises: it returns a boolean for every service.  When
  the request raises a transport error or the response has a 4xx or 5xx status, it logs one
  warning and returns \<open>False\<close>.  It returns \<open>True\<close> exactly when the response is not an
  error and the first message has status \<open>"complete"\<close> and an attestation that is a string
  other than \<open>"PENDING"\<close> (so neither null nor the sentinel).
\<close>

theorem is_attestation_complete_never_raises:
  "(\<exists>b n. is_attestation_complete svc sd tx api = (Inr b, n))
   \<and> (reply (svc (messages_url api sd (with_0x_prefix tx)) 1) = ConnectionFailed
        \<or> (\<exists>code ms. reply (svc (messages_url api sd (with_0x_prefix tx)) 1) = Response code ms
              \<and> 400 \<le> code \<and> code < 600)
      \<longrightarrow> is_attestation_complete svc sd tx api = (Inr False, 1))
   \<and> (fst (is_attestation_complete svc sd tx api) = Inr True \<longleftrightarrow>
        (\<exists>code msg rest a.
           reply (svc (messages_url api sd (with_0x_prefix tx)) 1) = Response code (msg # rest)
           \<and> \<not> (400 \<le> code \<and> code < 600) \<and> msg_status msg = JStr ''complete''
           \<and> msg_attestation msg = JStr a \<and> a \<noteq> ''PENDING''))"
  using is_attestation_complete_total is_attestation_complete_error is_attestation_complete_true
  by blast

theorem is_attestation_complete_never_raises_witness:
  "is_attestation_complete failing_service 3 ''0xabc...'' ''https://iris-api.circle.com''
     = (Inr False, 1)
   \<and> fst (is_attestation_complete scenario_service 3 ''0xabc...'' ''https://iris-api.circle.com'')
       \<noteq> Inr True"
proof -
  have a: "reply (failing_service (messages_url ''https://iris-api.circle.com'' 3 (with_0x_prefix ''0xabc...'')) 1)
            = Response 500 []"
    by (simp add: failing_service_def)
  have b: "reply (scenario_service (messages_url ''https://iris-api.circle.com'' 3 (with_0x_prefix ''0xabc...'')) 1)
            = Response 404 []"
    by (simp add: scenario_service_def)
  from is_attestation_complete_never_raises[of failing_service 3 "''0xabc...''" "''https://iris-api.circle.com''"] a
  have 1: "is_attestation_complete failing_service 3 ''0xabc...'' ''https://iris-api.circle.com'' = (Inr False, 1)"
    by simp
  from is_attestation_complete_never_raises[of scenario_service 3 "''0xabc...''" "''https://iris-api.circle.com''"] b
  have 2: "fst (is_attestation_complete scenario_service 3 ''0xabc...'' ''https://iris-api.circle.com'') \<noteq> Inr True"
    by simp
  from 1 2 show ?thesis by simp
qed

section \<open>What counts as complete\<close>

lemma fetch_loop_leave:
  assumes run: "fetch_loop svc url tx dn T p cb start s = Some y"
    and leave: "\<And>s out. fetch_pass svc url tx dn T p cb start s = Inl out \<Longrightarrow> Q out"
  shows "Q y"
  by (rule fetch_loop_invariant[where I = "\<lambda>s. True" and Q = Q, OF run]) (simp_all add: leave)

lemma poll_loop_leave:
  assumes run: "poll_loop svc sd tx T p api start s = Some y"
    and leave: "\<And>s out. poll_pass svc sd tx T p api start s = Inl out \<Longrightarrow> Q out"
  shows "Q y"
  by (rule poll_loop_invariant[where I = "\<lambda>s. True" and Q = Q, OF run]) (simp_all add: leave)

lemma attestation_ready_iff:
  "attestation_ready msg \<longleftrightarrow>
     msg_status msg = JStr ''complete'' \<and> (\<exists>a. msg_attestation msg = JStr a \<and> a \<noteq> [] \<and> a \<noteq> ''PENDING'')"
  by (cases "msg_status msg"; cases "msg_attestation msg")
     (simp_all add: attestation_ready_def get_status_def)

lemma fetch_pass_returns:
  assumes "fetch_pass svc url tx dn T p cb start s = Inl (Inr a, s')"
  shows "requests s' = Suc (requests s) \<and>
         (\<exists>code msg rest. reply (svc url (requests s')) = Response code (msg # rest)
            \<and> attestation_ready msg \<and> decode_attestation msg = Inr a)"
proof (cases "reply (svc url (Suc (requests s)))")
  case ConnectionFailed
  with assms show ?thesis
    by (simp add: fetch_pass_def Let_def http_get_def split: if_splits)
next
  case (Response code ms)
  with assms show ?thesis
    by (cases ms)
       (auto simp: fetch_pass_def Let_def http_get_def sleep_def notify_def
          raise_for_status_def HTTP_NOT_FOUND_def
        split: if_splits)
qed

lemma fetch_attestation_returns:
  assumes "fetch_attestation names svc t0 sd tx T p api cb = Some (Inr a, s')"
  shows "0 < requests s' \<and>
         (\<exists>code msg rest. reply (svc (messages_url api sd (with_0x_prefix tx)) (requests s'))
              = Response code (msg # rest)
            \<and> attestation_ready msg \<and> decode_attestation msg = Inr a)"
proof -
  let ?url = "messages_url api sd (with_0x_prefix tx)"
  define Q where "Q = (\<lambda>y::CCTPAttestation outcome. \<forall>a. fst y = Inr a \<longrightarrow> 0 < requests (snd y) \<and>
         (\<exists>code msg rest. reply (svc ?url (requests (snd y))) = Response code (msg # rest)
            \<and> attestation_ready msg \<and> decode_attestation msg = Inr a))"
  from assms have run: "fetch_loop svc ?url (with_0x_prefix tx) (domain_name_of names sd) T p cb t0
      (notify cb (Some ''waiting_for_indexing'')
         \<lparr>now = t0, attempt = 0, last_phase = None, calls = [], requests = 0\<rparr>) = Some (Inr a, s')"
    by (simp add: fetch_attestation_def Let_def)
  have "Q (Inr a, s')"
  proof (rule fetch_loop_leave[OF run])
    fix s out
    assume l: "fetch_pass svc ?url (with_0x_prefix tx) (domain_name_of names sd) T p cb t0 s = Inl out"
    show "Q out"
    proof (cases out)
      case (Pair r1 s1)
      with l fetch_pass_returns show ?thesis unfolding Q_def by fastforce
    qed
  qed
  then show ?thesis by (simp add: Q_def)
qed

lemma is_complete_needs_attestation: "ts_attestation st = None \<Longrightarrow> \<not> is_complete st"
  by (simp add: is_complete_def)

lemma poll_pass_returns:
  assumes "poll_pass svc sd tx T p api start s = Inl (Inr st, s')"
  shows "is_complete st \<and> requests s' = Suc (requests s) \<and>
         fst (fetch_transfer_status svc sd tx api (s\<lparr>attempt := attempt s + 1\<rparr>)) = Inr (Some st)"
  using assms
  by (auto simp: poll_pass_def Let_def sleep_def fetch_transfer_status_def http_get_def
      split: if_splits prod.splits sum.splits option.splits http_reply.splits list.splits)

lemma poll_transfer_status_returns:
  assumes "poll_transfer_status svc t0 sd tx T p api = Some (Inr st, s')"
  shows "is_complete st"
proof -
  from assms have run: "poll_loop svc sd (with_0x_prefix tx) T p api t0
      \<lparr>now = t0, attempt = 0, last_phase = None, calls = [], requests = 0\<rparr> = Some (Inr st, s')"
    by (simp add: poll_transfer_status_def)
  define Q where "Q = (\<lambda>y::CCTPTransferStatus outcome. \<forall>st. fst y = Inr st \<longrightarrow> is_complete st)"
  have "Q (Inr st, s')"
  proof (rule poll_loop_leave[OF run])
    fix s out
    assume l: "poll_pass svc sd (with_0x_prefix tx) T p api t0 s = Inl out"
    show "Q out"
    proof (cases out)
      case (Pair r1 s1)
      with l poll_pass_returns show ?thesis unfolding Q_def by fastforce
    qed
  qed
  then show ?thesis by (simp add: Q_def)
qed

lemma parse_complete:
  assumes "parse_transfer_status msg sd tx = Inr st" "is_complete st"
  shows "msg_status msg = JStr ''complete'' \<and> (\<exists>a. msg_attestation msg = JStr a \<and> a \<noteq> [] \<and> a \<noteq> ''PENDING'')"
  using assms
  by (cases "msg_status msg"; cases "msg_attestation msg")
     (auto simp: parse_transfer_status_def is_complete_def get_status_def
      split: if_splits option.splits sum.splits)

lemma poll_scenario_run:
  "poll_transfer_status scenario_service 0 3 ''0xabc...'' 300 10 ''https://iris-api.circle.com''
   = Some (Inr \<lparr>ts_status = Some ''complete'', ts_source_domain = 3, ts_dest_domain = 0,
                ts_attestation = Some [0xde, 0xad], ts_message = Some [0xbe, 0xef],
                ts_nonce = None, ts_delay_reason = None, ts_transaction_hash = ''0xabc...'',
                ts_cctp_version = None\<rparr>,
           \<lparr>now = 10, attempt = 2, last_phase = None, calls = [], requests = 2\<rparr>)"
  by (simp add: poll_transfer_status_def poll_loop.simps poll_pass_def fetch_transfer_status_def
        parse_transfer_status_def is_complete_def get_str_def eval_defs
        scenario_service_def scenario_message_def)

text \<open>
  C5.  A transfer counts as complete only when the status is \<open>"complete"\<close> and the
  attestation is there.  \<open>is_complete\<close> is false whenever the attestation is \<open>None\<close>, whatever
  the status; a parsed status is complete only if the message had status \<open>"complete"\<close> and an
  attestation string that is neither empty nor \<open>"PENDING"\<close>; \<open>fetch_attestation\<close> returns only
  when its last poll was answered with such a message; and every status that
  \<open>poll_transfer_status\<close> returns satisfies \<open>is_complete\<close>.
\<close>

theorem complete_needs_status_and_attestation:
  "(ts_attestation st = None \<longrightarrow> \<not> is_complete st)
   \<and> (parse_transfer_status msg sd1 tx1 = Inr st1 \<and> is_complete st1 \<longrightarrow>
        msg_status msg = JStr ''complete''
        \<and> (\<exists>hex. msg_attestation msg = JStr hex \<and> hex \<noteq> [] \<and> hex \<noteq> ''PENDING''))
   \<and> (fetch_attestation names svc t0 sd tx T p api cb = Some (Inr a, s) \<longrightarrow>
        0 < requests s
        \<and> (\<exists>code m rest hex.
              reply (svc (messages_url api sd (with_0x_prefix tx)) (requests s)) = Response code (m # rest)
              \<and> msg_status m = JStr ''complete''
              \<and> msg_attestation m = JStr hex \<and> hex \<noteq> [] \<and> hex \<noteq> ''PENDING''))
   \<and> (poll_transfer_status svc t0 sd tx T p api = Some (Inr st2, s2) \<longrightarrow> is_complete st2)"
proof (intro conjI impI)
  assume "ts_attestation st = None" then show "\<not> is_complete st"
    by (rule is_complete_needs_attestation)
next
  assume "parse_transfer_status msg sd1 tx1 = Inr st1 \<and> is_complete st1"
  then show "msg_status msg = JStr ''complete''"
    "\<exists>hex. msg_attestation msg = JStr hex \<and> hex \<noteq> [] \<and> hex \<noteq> ''PENDING''"
    using parse_complete by blast+
next
  assume r: "fetch_attestation names svc t0 sd tx T p api cb = Some (Inr a, s)"
  from fetch_attestation_returns[OF r] show "0 < requests s" by simp
  from fetch_attestation_returns[OF r] attestation_ready_iff
  show "\<exists>code m rest hex.
              reply (svc (messages_url api sd (with_0x_prefix tx)) (requests s)) = Response code (m # rest)
              \<and> msg_status m = JStr ''complete''
              \<and> msg_attestation m = JStr hex \<and> hex \<noteq> [] \<and> hex \<noteq> ''PENDING''"
    by blast
next
  assume "poll_transfer_status svc t0 sd tx T p api = Some (Inr st2, s2)"
  then show "is_complete st2" by (rule poll_transfer_status_returns)
qed

theorem complete_needs_status_and_attestation_witness:
  "\<not> is_complete \<lparr>ts_status = Some ''complete'', ts_source_domain = 3, ts_dest_domain = 0,
                ts_attestation = None, ts_message = Some [0xbe, 0xef],
                ts_nonce = None, ts_delay_reason = None, ts_transaction_hash = ''0xabc...'',
                ts_cctp_version = None\<rparr>
   \<and> (\<exists>st s. poll_transfer_status scenario_service 0 3 ''0xabc...'' 300 10 ''https://iris-api.circle.com''
                = Some (Inr st, s) \<and> is_complete st)"
proof -
  note t = complete_needs_status_and_attestation[where
      st = "\<lparr>ts_status = Some ''complete'', ts_source_domain = 3, ts_dest_domain = 0,
                ts_attestation = None, ts_message = Some [0xbe, 0xef],
                ts_nonce = None, ts_delay_reason = None, ts_transaction_hash = ''0xabc...'',
                ts_cctp_version = None\<rparr>"
      and svc = scenario_service and ?t0.0 = 0 and sd = 3 and tx = "''0xabc...''" and T = 300 and p = 10
      and api = "''https://iris-api.circle.com''"]
  from t have 1: "\<not> is_complete \<lparr>ts_status = Some ''complete'', ts_source_domain = 3, ts_dest_domain = 0,
                ts_attestation = None, ts_message = Some [0xbe, 0xef],
                ts_nonce = None, ts_delay_reason = None, ts_transaction_hash = ''0xabc...'',
                ts_cctp_version = None\<rparr>" by simp
  from t poll_scenario_run have 2: "is_complete \<lparr>ts_status = Some ''complete'', ts_source_domain = 3, ts_dest_domain = 0,
                ts_attestation = Some [0xde, 0xad], ts_message = Some [0xbe, 0xef],
                ts_nonce = None, ts_delay_reason = None, ts_transaction_hash = ''0xabc...'',
                ts_cctp_version = None\<rparr>" by blast
  from 1 2 poll_scenario_run show ?thesis by blast
qed

section \<open>Timeout of the attestation client\<close>

lemma fetch_pass_waits:
  assumes "now s - start < T" "still_waiting (reply (svc url (Suc (requests s))))" "0 \<le> p"
  shows "\<exists>s2. fetch_pass svc url tx dn T p cb start s = Inr s2"
proof (cases "reply (svc url (Suc (requests s)))")
  case ConnectionFailed
  with assms show ?thesis by (simp add: still_waiting_def)
next
  case (Response code ms)
  with assms show ?thesis
    by (cases ms)
       (auto simp: fetch_pass_def Let_def http_get_def sleep_def still_waiting_def
          raise_for_status_def HTTP_NOT_FOUND_def split: if_splits)
qed

lemma remaining_passes_decrease:
  fixes T e d p :: real
  assumes "0 < p" "0 \<le> d" "e < T"
  shows "nat \<lceil>(T - (e + d + p)) / p\<rceil> < nat \<lceil>(T - e) / p\<rceil>"
proof -
  have "(T - (e + d + p)) / p = (T - e) / p - d / p - 1"
    using assms(1) by (simp add: field_simps)
  also have "\<dots> \<le> (T - e) / p - 1" using assms(1,2) by simp
  finally have "\<lceil>(T - (e + d + p)) / p\<rceil> \<le> \<lceil>(T - e) / p - 1\<rceil>" by (rule ceiling_mono)
  then have le: "\<lceil>(T - (e + d + p)) / p\<rceil> \<le> \<lceil>(T - e) / p\<rceil> - 1" by simp
  have "0 < (T - e) / p" using assms(1,3) by simp
  then have "0 < \<lceil>(T - e) / p\<rceil>" by simp
  with le show ?thesis by linarith
qed

lemma fetch_loop_times_out:
  assumes waits: "\<forall>k. still_waiting (reply (svc url k))"
    and lat: "\<forall>k. 0 \<le> took (svc url k)"
    and p: "0 < p"
    and init: "requests s = 0" "now s = t0"
  shows "\<exists>s'. fetch_loop svc url tx dn T p cb t0 s =
            Some (Inl (TimeoutError [Lit ''CCTP attestation not ready after '', FloatArg T,
                   Lit ''s for tx '', StrArg tx, Lit '' on '', StrArg dn]), s')
          \<and> T \<le> now s' - t0
          \<and> (0 < T \<longrightarrow> 0 < requests s' \<and> now s' - t0 < T + p + took (svc url (requests s')))
          \<and> (T \<le> 0 \<longrightarrow> requests s' = 0 \<and> now s' = t0)"
proof -
  define I where "I = (\<lambda>s::poll_state.
     (requests s = 0 \<and> now s = t0) \<or>
     (0 < T \<and> 0 < requests s \<and> now s - t0 < T + p + took (svc url (requests s))))"
  define Q where "Q = (\<lambda>y::CCTPAttestation outcome.
     fst y = Inl (TimeoutError [Lit ''CCTP attestation not ready after '', FloatArg T,
                   Lit ''s for tx '', StrArg tx, Lit '' on '', StrArg dn])
     \<and> T \<le> now (snd y) - t0 \<and> I (snd y))"
  define m where "m = (\<lambda>s::poll_state. nat \<lceil>(T - (now s - t0)) / p\<rceil>)"
  have "\<exists>y. fetch_loop svc url tx dn T p cb t0 s = Some y \<and> Q y"
  proof (rule fetch_loop_total[where I = I and m = m])
    show "I s" using init by (simp add: I_def)
  next
    fix s :: poll_state assume i: "I s"
    show "case fetch_pass svc url tx dn T p cb t0 s of Inl out \<Rightarrow> Q out | Inr s2 \<Rightarrow> I s2 \<and> m s2 < m s"
    proof (cases "T \<le> now s - t0")
      case True
      with i fetch_pass_timeout[OF True, of svc url tx dn p cb] show ?thesis
        by (simp add: Q_def)
    next
      case False
      then have e: "now s - t0 < T" by simp
      from waits have w: "still_waiting (reply (svc url (Suc (requests s))))" by blast
      from p have p0: "0 \<le> p" by simp
      from fetch_pass_waits[where svc = svc and url = url and s = s and start = t0 and T = T
             and p = p and tx = tx and dn = dn and cb = cb, OF e w p0]
      obtain s2 where s2: "fetch_pass svc url tx dn T p cb t0 s = Inr s2" by auto
      from fetch_pass_again[OF s2] have
        r: "requests s2 = Suc (requests s)" and
        n: "now s2 = now s + took (svc url (Suc (requests s))) + p" by simp_all
      from i e have Tpos: "0 < T" by (auto simp: I_def)
      have "I s2" using e r n Tpos by (simp add: I_def)
      moreover have "m s2 < m s"
      proof -
        from lat have d: "0 \<le> took (svc url (Suc (requests s)))" by blast
        from remaining_passes_decrease[OF p d e]
        show ?thesis by (simp add: m_def n algebra_simps)
      qed
      ultimately show ?thesis using s2 by simp
    qed
  qed
  then obtain y where y: "fetch_loop svc url tx dn T p cb t0 s = Some y" and q: "Q y" by blast
  obtain r s' where ys: "y = (r, s')" by (cases y)
  from q ys have 1: "r = Inl (TimeoutError [Lit ''CCTP attestation not ready after '', FloatArg T,
                   Lit ''s for tx '', StrArg tx, Lit '' on '', StrArg dn])"
    and 2: "T \<le> now s' - t0" and 3: "I s'" by (simp_all add: Q_def)
  from 2 3 have 4: "0 < T \<longrightarrow> 0 < requests s' \<and> now s' - t0 < T + p + took (svc url (requests s'))"
    by (auto simp: I_def)
  from 2 3 have 5: "T \<le> 0 \<longrightarrow> requests s' = 0 \<and> now s' = t0"
    by (auto simp: I_def)
  from y ys 1 2 4 5 show ?thesis by blast
qed

text \<open>
  C2, as the code has it.  Against a service that answers every request with a 404 or with a
  response that passes \<open>raise_for_status\<close> and is not ready, with requests that take no
  negative time and a positive poll interval, \<open>fetch_attestation\<close> ends by raising
  \<open>TimeoutError\<close>.  The message carries the timeout, the 0x-prefixed transaction hash and the
  name of the source domain.  The error is never raised before the elapsed time has reached
  the timeout \<open>T\<close>: it is raised at the first loop head where it has, which for a positive
  timeout comes less than the last request's duration plus the poll interval after \<open>T\<close>,
  so within \<open>T + p\<close> when requests take no time.
\<close>

theorem timeout_is_respected:
  assumes "\<forall>k. still_waiting (reply (svc (messages_url api sd (with_0x_prefix tx)) k))"
    and "\<forall>k. 0 \<le> took (svc (messages_url api sd (with_0x_prefix tx)) k)"
    and "0 < p"
  shows "\<exists>s. fetch_attestation names svc t0 sd tx T p api cb =
            Some (Inl (TimeoutError [Lit ''CCTP attestation not ready after '', FloatArg T,
                   Lit ''s for tx '', StrArg (with_0x_prefix tx), Lit '' on '',
                   StrArg (domain_name_of names sd)]), s)
          \<and> T \<le> now s - t0
          \<and> (0 < T \<longrightarrow> 0 < requests s \<and>
                now s - t0 < T + p + took (svc (messages_url api sd (with_0x_prefix tx)) (requests s)))
          \<and> (T \<le> 0 \<longrightarrow> requests s = 0 \<and> now s = t0)"
  unfolding fetch_attestation_def Let_def
  by (rule fetch_loop_times_out[where svc = svc
        and url = "messages_url api sd (with_0x_prefix tx)" and p = p, OF assms])
     (simp_all add: notify_def Let_def)

lemma pending_service_waits:
  "still_waiting (reply (pending_service url k))" "0 \<le> took (pending_service url k)"
  by (simp_all add: pending_service_def pending_message_def still_waiting_def
        attestation_ready_def get_status_def raise_for_status_def HTTP_NOT_FOUND_def)

theorem timeout_is_respected_witness:
  "\<exists>s. fetch_attestation Map.empty pending_service 0 3 ''0xabc...'' 10 5
          ''https://iris-api.circle.com'' False =
            Some (Inl (TimeoutError [Lit ''CCTP attestation not ready after '', FloatArg 10,
                   Lit ''s for tx '', StrArg ''0xabc...'', Lit '' on '', StrArg ''domain-3'']), s)
          \<and> 10 \<le> now s \<and> now s < 15 \<and> 0 < requests s"
proof -
  have d: "domain_name_of Map.empty 3 = ''domain-3''" "with_0x_prefix ''0xabc...'' = ''0xabc...''"
    by (simp_all add: domain_name_of_def str_int_def str_nat.simps with_0x_prefix_def)
  have t: "took (pending_service url k) = 0" for url k by (simp add: pending_service_def)
  from timeout_is_respected[of pending_service "''https://iris-api.circle.com''" 3 "''0xabc...''" 5
         Map.empty 0 10 False] pending_service_waits
  have "\<exists>s. fetch_attestation Map.empty pending_service 0 3 ''0xabc...'' 10 5
          ''https://iris-api.circle.com'' False =
            Some (Inl (TimeoutError [Lit ''CCTP attestation not ready after '', FloatArg 10,
                   Lit ''s for tx '', StrArg ''0xabc...'', Lit '' on '', StrArg ''domain-3'']), s)
          \<and> 10 \<le> now s \<and> 0 < requests s \<and> now s < 15"
    by (simp add: d t)
  then show ?thesis by blast
qed

text \<open>
  A service that never reports a complete status, since it answers every request with
  HTTP 500: the call ends with \<open>HTTPError\<close> on the first poll, not with \<open>TimeoutError\<close>.
\<close>

theorem failing_service_raises_http_error:
  "fetch_attestation Map.empty failing_service 0 3 ''0xabc...'' 300 5
     ''https://iris-api.circle.com'' False
   = Some (Inl (HTTPError 500),
           \<lparr>now = 0, attempt = 1, last_phase = Some ''waiting_for_indexing'', calls = [],
            requests = 1\<rparr>)"
  by (simp add: eval_defs fetch_loop.simps failing_service_def)

section \<open>Retrying while the transfer is not indexed\<close>

lemma fetch_pass_ready:
  assumes "now s - start < T"
    and "reply (svc url (Suc (requests s))) = Response code (msg # rest)"
    and "code \<noteq> 404" "\<not> (400 \<le> code \<and> code < 600)" "attestation_ready msg"
  shows "\<exists>s'. fetch_pass svc url tx dn T p cb start s = Inl (decode_attestation msg, s')
          \<and> requests s' = Suc (requests s)"
  using assms
  by (auto simp: fetch_pass_def Let_def http_get_def raise_for_status_def HTTP_NOT_FOUND_def
        notify_def)

lemma fetch_pass_http_error:
  assumes "now s - start < T"
    and "reply (svc url (Suc (requests s))) = Response code ms"
    and "code \<noteq> 404" "400 \<le> code" "code < 600"
  shows "\<exists>s'. fetch_pass svc url tx dn T p cb start s = Inl (Inl (HTTPError code), s')
          \<and> requests s' = Suc (requests s)"
  using assms
  by (simp add: fetch_pass_def Let_def http_get_def raise_for_status_def HTTP_NOT_FOUND_def)

lemma not_found_waits: "still_waiting (Response 404 ms)"
  by (simp add: still_waiting_def HTTP_NOT_FOUND_def)

lemma fetch_loop_after_not_found:
  fixes N :: nat
  assumes nf: "\<forall>k. 1 \<le> k \<and> k \<le> N \<longrightarrow> (\<exists>ms. reply (svc url k) = Response 404 ms)"
    and lat: "\<forall>k. 1 \<le> k \<and> k \<le> N \<longrightarrow> 0 \<le> took (svc url k)"
    and p: "0 \<le> p"
    and time: "(\<Sum>k = 1..N. took (svc url k) + p) < T"
    and init: "requests s = 0" "now s = t0"
    and last: "\<And>s. requests s = N \<Longrightarrow> now s - t0 < T \<Longrightarrow>
                 (case fetch_pass svc url tx dn T p cb t0 s of Inl out \<Rightarrow> Q out | Inr _ \<Rightarrow> False)"
  shows "\<exists>y. fetch_loop svc url tx dn T p cb t0 s = Some y \<and> Q y"
proof -
  define I where "I = (\<lambda>s::poll_state. requests s \<le> N \<and>
     now s = t0 + (\<Sum>k = 1..requests s. took (svc url k) + p))"
  define m where "m = (\<lambda>s::poll_state. Suc N - requests s)"
  have early: "(\<Sum>k = 1..j. took (svc url k) + p) \<le> (\<Sum>k = 1..N. took (svc url k) + p)" if "j \<le> N" for j
  proof (rule sum_mono2)
    show "finite {1..N}" by simp
    show "{1..j} \<subseteq> {1..N}" using that by auto
    fix b assume "b \<in> {1..N} - {1..j}"
    then have "1 \<le> b \<and> b \<le> N" by auto
    with lat p show "0 \<le> took (svc url b) + p" by (simp add: add_nonneg_nonneg)
  qed
  show ?thesis
  proof (rule fetch_loop_total[where I = I and m = m])
    show "I s" using init by (simp add: I_def)
  next
    fix s :: poll_state assume i: "I s"
    then have le: "requests s \<le> N" and n: "now s = t0 + (\<Sum>k = 1..requests s. took (svc url k) + p)"
      by (simp_all add: I_def)
    from early[OF le] time n have e: "now s - t0 < T" by simp
    show "case fetch_pass svc url tx dn T p cb t0 s of Inl out \<Rightarrow> Q out | Inr s2 \<Rightarrow> I s2 \<and> m s2 < m s"
    proof (cases "requests s = N")
      case True
      from last[OF True e] show ?thesis by (auto split: sum.splits)
    next
      case False
      with le have lt: "requests s < N" by simp
      with nf obtain ms where "reply (svc url (Suc (requests s))) = Response 404 ms" by fastforce
      then have w: "still_waiting (reply (svc url (Suc (requests s))))" by (simp add: not_found_waits)
      from fetch_pass_waits[where svc = svc and url = url and s = s and start = t0 and T = T
             and p = p and tx = tx and dn = dn and cb = cb, OF e w p]
      obtain s2 where s2: "fetch_pass svc url tx dn T p cb t0 s = Inr s2" by auto
      from fetch_pass_again[OF s2] have
        r: "requests s2 = Suc (requests s)" and
        n2: "now s2 = now s + took (svc url (Suc (requests s))) + p" by simp_all
      have "I s2" using lt r n2 n by (simp add: I_def)
      moreover have "m s2 < m s" using lt r by (simp add: m_def)
      ultimately show ?thesis using s2 by simp
    qed
  qed
qed

text \<open>
  C3, as the code has it.  Let the service answer the first \<open>N\<close> requests with 404, and let
  the timeout not have run out when request \<open>N + 1\<close> is due: the durations of the first \<open>N\<close>
  requests and the sleeps after them add up to less than the timeout.  If request \<open>N + 1\<close> is
  answered with a complete first message whose payloads decode, \<open>fetch_attestation\<close> returns
  the attestation after exactly \<open>N + 1\<close> requests, and no 404 has raised anything.  If it is
  answered with an HTTP error status other than 404, \<open>fetch_attestation\<close> raises
  \<open>HTTPError\<close> for it and sends no further request.
\<close>

theorem not_found_is_retried:
  assumes "\<forall>k. 1 \<le> k \<and> k \<le> N \<longrightarrow>
             (\<exists>ms. reply (svc (messages_url api sd (with_0x_prefix tx)) k) = Response 404 ms)"
    and "\<forall>k. 1 \<le> k \<and> k \<le> N \<longrightarrow> 0 \<le> took (svc (messages_url api sd (with_0x_prefix tx)) k)"
    and "0 \<le> p"
    and "(\<Sum>k = 1..N. took (svc (messages_url api sd (with_0x_prefix tx)) k) + p) < T"
  shows "(\<forall>code msg rest a.
            reply (svc (messages_url api sd (with_0x_prefix tx)) (Suc N)) = Response code (msg # rest)
            \<and> code \<noteq> 404 \<and> \<not> (400 \<le> code \<and> code < 600)
            \<and> attestation_ready msg \<and> decode_attestation msg = Inr a
            \<longrightarrow> (\<exists>s. fetch_attestation names svc t0 sd tx T p api cb = Some (Inr a, s)
                      \<and> requests s = Suc N))
       \<and> (\<forall>code ms.
            reply (svc (messages_url api sd (with_0x_prefix tx)) (Suc N)) = Response code ms
            \<and> code \<noteq> 404 \<and> 400 \<le> code \<and> code < 600
            \<longrightarrow> (\<exists>s. fetch_attestation names svc t0 sd tx T p api cb = Some (Inl (HTTPError code), s)
                      \<and> requests s = Suc N))"
proof (intro conjI allI impI)
  let ?url = "messages_url api sd (with_0x_prefix tx)"
  let ?s0 = "notify cb (Some ''waiting_for_indexing'')
               \<lparr>now = t0, attempt = 0, last_phase = None, calls = [], requests = 0\<rparr>"
  have init: "requests ?s0 = 0" "now ?s0 = t0" by (simp_all add: notify_def Let_def)
  {
    fix code msg rest a
    assume h: "reply (svc ?url (Suc N)) = Response code (msg # rest)
            \<and> code \<noteq> 404 \<and> \<not> (400 \<le> code \<and> code < 600)
            \<and> attestation_ready msg \<and> decode_attestation msg = Inr a"
    define Q where "Q = (\<lambda>y::CCTPAttestation outcome. fst y = Inr a \<and> requests (snd y) = Suc N)"
    have "\<exists>y. fetch_loop svc ?url (with_0x_prefix tx) (domain_name_of names sd) T p cb t0 ?s0 = Some y \<and> Q y"
    proof (rule fetch_loop_after_not_found[where N = N and Q = Q and svc = svc and url = ?url and p = p
            and T = T and s = ?s0 and ?t0.0 = t0, OF assms init])
      fix s :: poll_state assume r: "requests s = N" and e: "now s - t0 < T"
      from h r have "reply (svc ?url (Suc (requests s))) = Response code (msg # rest)" by simp
      from fetch_pass_ready[where svc = svc and url = ?url and s = s and start = t0 and T = T
             and tx = "with_0x_prefix tx" and dn = "domain_name_of names sd" and p = p and cb = cb,
             OF e this] h r
      show "case fetch_pass svc ?url (with_0x_prefix tx) (domain_name_of names sd) T p cb t0 s of
              Inl out \<Rightarrow> Q out | Inr _ \<Rightarrow> False"
        by (auto simp: Q_def)
    qed
    then show "\<exists>s. fetch_attestation names svc t0 sd tx T p api cb = Some (Inr a, s) \<and> requests s = Suc N"
      by (auto simp: fetch_attestation_def Let_def Q_def)
  }
  {
    fix code ms
    assume h: "reply (svc ?url (Suc N)) = Response code ms \<and> code \<noteq> 404 \<and> 400 \<le> code \<and> code < 600"
    define Q where "Q = (\<lambda>y::CCTPAttestation outcome. fst y = Inl (HTTPError code) \<and> requests (snd y) = Suc N)"
    have "\<exists>y. fetch_loop svc ?url (with_0x_prefix tx) (domain_name_of names sd) T p cb t0 ?s0 = Some y \<and> Q y"
    proof (rule fetch_loop_after_not_found[where N = N and Q = Q and svc = svc and url = ?url and p = p
            and T = T and s = ?s0 and ?t0.0 = t0, OF assms init])
      fix s :: poll_state assume r: "requests s = N" and e: "now s - t0 < T"
      from h r have "reply (svc ?url (Suc (requests s))) = Response code ms" by simp
      from fetch_pass_http_error[where svc = svc and url = ?url and s = s and start = t0 and T = T
             and tx = "with_0x_prefix tx" and dn = "domain_name_of names sd" and p = p and cb = cb,
             OF e this] h r
      show "case fetch_pass svc ?url (with_0x_prefix tx) (domain_name_of names sd) T p cb t0 s of
              Inl out \<Rightarrow> Q out | Inr _ \<Rightarrow> False"
        by (auto simp: Q_def)
    qed
    then show "\<exists>s. fetch_attestation names svc t0 sd tx T p api cb = Some (Inl (HTTPError code), s)
                 \<and> requests s = Suc N"
      by (auto simp: fetch_attestation_def Let_def Q_def)
  }
qed

lemma scenario_message_ready:
  "attestation_ready scenario_message"
  "decode_attestation scenario_message =
     Inr \<lparr>message = [0xbe, 0xef], attestation = [0xde, 0xad], status = ''complete''\<rparr>"
  by (simp_all add: scenario_message_def eval_defs)

theorem not_found_is_retried_witness:
  "(\<exists>s. fetch_attestation Map.empty scenario_service 0 3 ''0xabc...'' 300 5
           ''https://iris-api.circle.com'' False
         = Some (Inr \<lparr>message = [0xbe, 0xef], attestation = [0xde, 0xad], status = ''complete''\<rparr>, s)
        \<and> requests s = 2)
   \<and> (\<exists>s. fetch_attestation Map.empty broken_service 0 3 ''0xabc...'' 300 5
           ''https://iris-api.circle.com'' False
         = Some (Inl (HTTPError 503), s) \<and> requests s = 2)"
proof -
  let ?url = "messages_url ''https://iris-api.circle.com'' 3 (with_0x_prefix ''0xabc...'')"
  have a1: "\<forall>k. 1 \<le> k \<and> k \<le> 1 \<longrightarrow> (\<exists>ms. reply (scenario_service ?url k) = Response 404 ms)"
    by (simp add: scenario_service_def)
  have a2: "\<forall>k. 1 \<le> k \<and> k \<le> 1 \<longrightarrow> 0 \<le> took (scenario_service ?url k)"
    by (simp add: scenario_service_def)
  have a3: "(\<Sum>k = 1..1. took (scenario_service ?url k) + 5) < (300::real)"
    by (simp add: scenario_service_def)
  have a4: "reply (scenario_service ?url (Suc 1)) = Response 200 [scenario_message]"
    by (simp add: scenario_service_def)
  have b1: "\<forall>k. 1 \<le> k \<and> k \<le> 1 \<longrightarrow> (\<exists>ms. reply (broken_service ?url k) = Response 404 ms)"
    by (simp add: broken_service_def)
  have b2: "\<forall>k. 1 \<le> k \<and> k \<le> 1 \<longrightarrow> 0 \<le> took (broken_service ?url k)"
    by (simp add: broken_service_def)
  have b3: "(\<Sum>k = 1..1. took (broken_service ?url k) + 5) < (300::real)"
    by (simp add: broken_service_def)
  have b4: "reply (broken_service ?url (Suc 1)) = Response 503 []"
    by (simp add: broken_service_def)
  have p: "(0::real) \<le> 5" by simp
  from not_found_is_retried[where svc = scenario_service and N = 1 and p = 5 and T = 300
         and api = "''https://iris-api.circle.com''" and sd = 3 and tx = "''0xabc...''"
         and names = Map.empty and ?t0.0 = 0 and cb = False, OF a1 a2 p a3]
       a4 scenario_message_ready
  have 1: "\<exists>s. fetch_attestation Map.empty scenario_service 0 3 ''0xabc...'' 300 5
           ''https://iris-api.circle.com'' False
         = Some (Inr \<lparr>message = [0xbe, 0xef], attestation = [0xde, 0xad], status = ''complete''\<rparr>, s)
        \<and> requests s = Suc 1"
    by simp
  from not_found_is_retried[where svc = broken_service and N = 1 and p = 5 and T = 300
         and api = "''https://iris-api.circle.com''" and sd = 3 and tx = "''0xabc...''"
         and names = Map.empty and ?t0.0 = 0 and cb = False, OF b1 b2 p b3]
       b4
  have 2: "\<exists>s. fetch_attestation Map.empty broken_service 0 3 ''0xabc...'' 300 5
           ''https://iris-api.circle.com'' False
         = Some (Inl (HTTPError 503), s) \<and> requests s = Suc 1"
    by simp
  have "Suc 1 = 2" by simp
  with 1 2 show ?thesis by metis
qed

text \<open>
  With a timeout of 10 seconds and a poll interval of 5, against a service that answers 404
  twice and would then report the complete message: the third request is never sent, the
  call raises \<open>TimeoutError\<close> after the two 404 responses.
\<close>

theorem timeout_before_complete_reply:
  "fetch_attestation Map.empty late_service 0 3 ''0xabc...'' 10 5
     ''https://iris-api.circle.com'' False
   = Some (Inl (TimeoutError [Lit ''CCTP attestation not ready after '', FloatArg 10,
                  Lit ''s for tx '', StrArg ''0xabc...'', Lit '' on '', StrArg ''domain-3'']),
           \<lparr>now = 10, attempt = 2, last_phase = Some ''waiting_for_indexing'', calls = [],
            requests = 2\<rparr>)"
  by (simp add: eval_defs fetch_loop.simps late_service_def str_int_def str_nat.simps)

section \<open>The burn phase\<close>

lemma send_contract_tx_cases:
  assumes "send_contract_tx e t w = (r, w')"
  shows "http_requests w' = http_requests w \<and> bar w' = bar w \<and>
         ((txs w' = txs w \<and> (\<exists>err. r = Inl err)) \<or>
          (txs w' = txs w @ [t] \<and>
             (r = Inl TransactionFailed \<or> r = Inr (fst (execute e (txs w) t)))))"
  using assms
  by (auto simp: send_contract_tx_def Let_def split: option.splits prod.splits if_splits)

lemma track_keeps:
  assumes "track names idx ph k w = Inr w'"
  shows "txs w' = txs w \<and> http_requests w' = http_requests w"
  using assms by (auto simp: track_def split: sum.splits)

lemma burn_usdc_cctp_cases:
  assumes "burn_usdc_cctp e src c a amt w = (r, w')"
  shows "http_requests w' = http_requests w \<and> bar w' = bar w \<and>
         ((\<exists>err new rest. r = Inl err \<and> txs w' = txs w @ new
              \<and> new @ rest = [Approve src amt, DepositForBurn src amt c a])
          \<or> (\<exists>log. r = Inr \<lparr>b_burn_tx_hash = fst (execute e log (DepositForBurn src amt c a)),
                               b_amount = amt, b_source_chain_id = src,
                               b_dest_chain_id = c, b_dest_safe_address = a\<rparr>
                \<and> txs w' = txs w @ [Approve src amt, DepositForBurn src amt c a]
                \<and> resolve_cctp_domain e c \<noteq> None))"
proof (cases "resolve_cctp_domain e src = None \<or> resolve_cctp_domain e c = None")
  case True
  with assms show ?thesis by (auto simp: burn_usdc_cctp_def split: if_splits)
next
  case False
  obtain r1 w1 where s1: "send_contract_tx e (Approve src amt) w = (r1, w1)"
    by (cases "send_contract_tx e (Approve src amt) w")
  note c1 = send_contract_tx_cases[OF s1]
  show ?thesis
  proof (cases r1)
    case (Inl err)
    with assms False s1 have "r = Inl err" "w' = w1" by (auto simp: burn_usdc_cctp_def)
    with c1 Inl show ?thesis by auto
  next
    case (Inr h1)
    with c1 have t1: "txs w1 = txs w @ [Approve src amt]" by auto
    obtain r2 w2 where s2: "send_contract_tx e (DepositForBurn src amt c a) w1 = (r2, w2)"
      by (cases "send_contract_tx e (DepositForBurn src amt c a) w1")
    note c2 = send_contract_tx_cases[OF s2]
    show ?thesis
    proof (cases r2)
      case (Inl err)
      with assms False s1 s2 Inr have "r = Inl err" "w' = w2" by (auto simp: burn_usdc_cctp_def)
      with c1 c2 t1 Inl show ?thesis by auto
    next
      case (Inr h2)
      with assms False s1 s2 \<open>r1 = Inr h1\<close> have
        "r = Inr \<lparr>b_burn_tx_hash = h2, b_amount = amt, b_source_chain_id = src,
                  b_dest_chain_id = c, b_dest_safe_address = a\<rparr>" "w' = w2"
        by (auto simp: burn_usdc_cctp_def)
      with c1 c2 t1 Inr False show ?thesis by auto
    qed
  qed
qed

end
